theory Spec2Isabelle
  imports Complex_Main "HOL-Library.Log_Nat" "HOL-Library.AList"
begin

section \<open>Conventions\<close>

text \<open>
  Each function of the source is a function of the same name here. A function that awaits
  the database or the file system takes the state of the outside world and returns its
  result together with the new state; a function that can throw returns \<open>Inl\<close> of the thrown
  value. Logging is left out. Field names are those of the source; where two of its
  interfaces share a field name the later one carries a letter in front (\<open>verrors\<close>,
  \<open>tcolumns\<close>, \<open>trows\<close>, \<open>pfailed\<close>, \<open>iIsValid\<close>, \<open>iErrors\<close>, \<open>iRowCount\<close>), and the
  worksheet's \<open>rowCount\<close> is \<open>wsRowCount\<close>. The number of rows to skip is a natural number,
  as the upload schema requires.
\<close>

section \<open>JavaScript values\<close>

text \<open>
  A thrown value is either an \<open>Error\<close> instance carrying a message or some other value.
  The source distinguishes the two in \<open>error instanceof Error ? error.message : 'Unknown error'\<close>.
\<close>

datatype jserror = Error string | Thrown

text \<open>
  A JavaScript number is an IEEE double: a finite double is a rational, the others are
  NaN and the two infinities.
\<close>

datatype jsnumber = Num rat | NaN | PosInfinity | NegInfinity

text \<open>A \<open>Date\<close> object holds a time value in milliseconds, or is invalid.\<close>

datatype jsdate = Date "int option"

text \<open>
  The values a spreadsheet cell can hold (the \<open>CellValue\<close> of the spreadsheet library) and
  the values an \<open>ImportRecord\<close> can hold at run time: the scalars, \<open>Date\<close> objects, and the
  library's objects for error cells (\<open>{error}\<close>), formula cells (\<open>{formula, result}\<close>),
  rich text (\<open>{richText: [{text}, ...]}\<close>) and hyperlinks (\<open>{text, hyperlink}\<close>).
  A string is the sequence of its code units, and its length their number; the code
  units are those that a \<open>char\<close> holds.
\<close>

datatype jsvalue =
    JNull
  | JUndefined
  | JNumber jsnumber
  | JString string
  | JBoolean bool
  | JDate jsdate
  | JErrorObj string
  | JFormulaObj string jsvalue
  | JRichTextObj "string list"
  | JHyperlinkObj string string

fun isInteger :: "jsnumber \<Rightarrow> bool" where
  "isInteger (Num q) = (of_int \<lfloor>q\<rfloor> = q)"
| "isInteger NaN = False"
| "isInteger PosInfinity = False"
| "isInteger NegInfinity = False"

text \<open>
  Arithmetic on numbers is IEEE double arithmetic: the exact result is rounded to the
  nearest double, ties to the even significand. \<open>ilog2 x\<close> is the exponent of a positive
  rational (\<open>2 ^ e \<le> x < 2 ^ (e + 1)\<close>), a double has 53 significant bits above the exponent
  \<open>-1022\<close>, and a rounded magnitude of \<open>2 ^ 1024\<close> or more is an infinity. The sign of zero
  is not kept: every zero is the positive one, as the counters of this program are.
  \<open>Math.round\<close> rounds to the nearest integer, halves upwards.
\<close>

definition roundHalfEven :: "rat \<Rightarrow> int" where
  "roundHalfEven x =
     (let f = \<lfloor>x\<rfloor>; d = x - of_int f
      in if d < 1 / 2 then f else if 1 / 2 < d then f + 1 else if even f then f else f + 1)"

definition ilog2 :: "rat \<Rightarrow> int" where
  "ilog2 x =
     (case quotient_of x of (n, d) \<Rightarrow>
        (let k = bitlen n - bitlen d in if 2 powi k \<le> x then k else k - 1))"

definition roundToDouble :: "rat \<Rightarrow> jsnumber" where
  "roundToDouble x =
     (if x = 0 then Num 0
      else (let a = \<bar>x\<bar>;
                e = max (ilog2 a) (- 1022);
                m = roundHalfEven (a * 2 powi (52 - e));
                y = of_int m * 2 powi (e - 52)
            in if 2 powi 1024 \<le> y then (if 0 < x then PosInfinity else NegInfinity)
               else Num (sgn x * y)))"

fun js_div :: "jsnumber \<Rightarrow> jsnumber \<Rightarrow> jsnumber" where
  "js_div (Num a) (Num b) =
     (if b = 0 then (if a = 0 then NaN else if 0 < a then PosInfinity else NegInfinity)
      else roundToDouble (a / b))"
| "js_div (Num a) PosInfinity = Num 0"
| "js_div (Num a) NegInfinity = Num 0"
| "js_div PosInfinity (Num b) = (if 0 \<le> b then PosInfinity else NegInfinity)"
| "js_div NegInfinity (Num b) = (if 0 \<le> b then NegInfinity else PosInfinity)"
| "js_div a b = NaN"

fun js_mul :: "jsnumber \<Rightarrow> jsnumber \<Rightarrow> jsnumber" where
  "js_mul (Num a) (Num b) = roundToDouble (a * b)"
| "js_mul PosInfinity (Num b) =
     (if b = 0 then NaN else if 0 < b then PosInfinity else NegInfinity)"
| "js_mul NegInfinity (Num b) =
     (if b = 0 then NaN else if 0 < b then NegInfinity else PosInfinity)"
| "js_mul (Num a) PosInfinity =
     (if a = 0 then NaN else if 0 < a then PosInfinity else NegInfinity)"
| "js_mul (Num a) NegInfinity =
     (if a = 0 then NaN else if 0 < a then NegInfinity else PosInfinity)"
| "js_mul PosInfinity PosInfinity = PosInfinity"
| "js_mul PosInfinity NegInfinity = NegInfinity"
| "js_mul NegInfinity PosInfinity = NegInfinity"
| "js_mul NegInfinity NegInfinity = PosInfinity"
| "js_mul a b = NaN"

fun Math_round :: "jsnumber \<Rightarrow> jsnumber" where
  "Math_round (Num q) = Num (of_int \<lfloor>q + 1 / 2\<rfloor>)"
| "Math_round n = n"

text \<open>
  What the JavaScript engine supplies and the repository only calls: the conversion of a
  number and of a \<open>Date\<close> to a string, and whether \<open>new Date(s)\<close> is a valid date
  (\<open>!Number.isNaN(new Date(s).getTime())\<close>).
\<close>

record jsengine =
  numberToString :: "jsnumber \<Rightarrow> string"
  dateToString :: "jsdate \<Rightarrow> string"
  dateParses :: "string \<Rightarrow> bool"

section \<open>Import records\<close>

text \<open>
  An \<open>ImportRecord\<close> is a JavaScript object with string keys. It is kept as an association
  list in insertion order: \<open>record[key] = value\<close> updates the entry in place or appends it,
  \<open>record[key]\<close> reads the entry or gives \<open>undefined\<close>, and \<open>Object.keys\<close> lists the keys
  that are array indices in ascending numeric order, then the other keys in insertion order.
\<close>

type_synonym importRecord = "(string \<times> jsvalue) list"

definition recordSet :: "importRecord \<Rightarrow> string \<Rightarrow> jsvalue \<Rightarrow> importRecord" where
  "recordSet r k v = AList.update k v r"

definition recordGet :: "importRecord \<Rightarrow> string \<Rightarrow> jsvalue" where
  "recordGet r k = (case map_of r k of None \<Rightarrow> JUndefined | Some v \<Rightarrow> v)"

definition isDigit :: "char \<Rightarrow> bool" where
  "isDigit c = (48 \<le> (of_char c :: nat) \<and> (of_char c :: nat) \<le> 57)"

definition digitsToNat :: "string \<Rightarrow> nat" where
  "digitsToNat s = foldl (\<lambda>n c. 10 * n + (of_char c - 48)) 0 s"

definition isArrayIndex :: "string \<Rightarrow> bool" where
  "isArrayIndex s =
     (s \<noteq> [] \<and> list_all isDigit s \<and> (s = ''0'' \<or> hd s \<noteq> CHR ''0'') \<and>
      digitsToNat s \<le> 4294967294)"

definition Object_keys :: "importRecord \<Rightarrow> string list" where
  "Object_keys r =
     sort_key digitsToNat (filter isArrayIndex (map fst r)) @
     filter (\<lambda>k. \<not> isArrayIndex k) (map fst r)"

section \<open>The spreadsheet library's objects\<close>

text \<open>
  The workbook object that \<open>workbook.xlsx.readFile\<close> fills. A worksheet keeps its rows in a
  sparse array (row number \<open>n\<close> at index \<open>n - 1\<close>), a row keeps its cells in a sparse array
  (column number \<open>c\<close> at index \<open>c - 1\<close>). A cell has a value; a cell merged into another one
  reports the master's value and the type \<open>Merge\<close>. A workbook is the list of its
  worksheets in tab order.
\<close>

datatype cell = Cell jsvalue | MergeCell jsvalue

type_synonym row = "cell option list"

record worksheet =
  wsName :: string
  wsRows :: "row option list"

type_synonym workbook = "worksheet list"

text \<open>The library's \<open>ValueType\<close> of a cell, computed from its value.\<close>

datatype valuetype =
    TNull | TMerge | TNumber | TString | TDate | THyperlink | TFormula | TRichText
  | TBoolean | TError

fun valueType :: "jsvalue \<Rightarrow> valuetype" where
  "valueType JNull = TNull"
| "valueType JUndefined = TNull"
| "valueType (JNumber n) = TNumber"
| "valueType (JString s) = TString"
| "valueType (JBoolean b) = TBoolean"
| "valueType (JDate d) = TDate"
| "valueType (JErrorObj e) = TError"
| "valueType (JFormulaObj f r) = TFormula"
| "valueType (JRichTextObj ts) = TRichText"
| "valueType (JHyperlinkObj t h) = THyperlink"

fun cellType :: "cell \<Rightarrow> valuetype" where
  "cellType (Cell v) = valueType v"
| "cellType (MergeCell v) = TMerge"

fun cellValue :: "cell \<Rightarrow> jsvalue" where
  "cellValue (Cell v) = v"
| "cellValue (MergeCell v) = v"

text \<open>\<open>row.hasValues\<close>: some cell exists whose type is not \<open>Null\<close>.\<close>

definition hasValues :: "row \<Rightarrow> bool" where
  "hasValues r = list_ex (\<lambda>c. case c of None \<Rightarrow> False | Some cl \<Rightarrow> cellType cl \<noteq> TNull) r"

text \<open>
  \<open>row.eachCell(f)\<close> calls \<open>f(cell, colNumber)\<close> on the existing cells whose type is not
  \<open>Null\<close>; \<open>row.eachCell({includeEmpty: true}, f)\<close> calls it on every column from 1 to the
  length of the cell array, with an empty cell where none exists. Both are given as the
  list of calls made, in order; the first argument is the index of the first cell.
\<close>

fun eachCell :: "nat \<Rightarrow> row \<Rightarrow> (cell \<times> nat) list" where
  "eachCell i [] = []"
| "eachCell i (None # cs) = eachCell (Suc i) cs"
| "eachCell i (Some c # cs) =
     (if cellType c \<noteq> TNull then (c, Suc i) # eachCell (Suc i) cs else eachCell (Suc i) cs)"

fun eachCellIncludeEmpty :: "nat \<Rightarrow> row \<Rightarrow> (cell \<times> nat) list" where
  "eachCellIncludeEmpty i [] = []"
| "eachCellIncludeEmpty i (None # cs) = (Cell JNull, Suc i) # eachCellIncludeEmpty (Suc i) cs"
| "eachCellIncludeEmpty i (Some c # cs) = (c, Suc i) # eachCellIncludeEmpty (Suc i) cs"

text \<open>
  \<open>worksheet.eachRow({includeEmpty: false}, f)\<close> calls \<open>f(row, rowNumber)\<close> on the existing
  rows that have values.
\<close>

fun eachRow :: "nat \<Rightarrow> row option list \<Rightarrow> (row \<times> nat) list" where
  "eachRow i [] = []"
| "eachRow i (None # rs) = eachRow (Suc i) rs"
| "eachRow i (Some r # rs) =
     (if hasValues r then (r, Suc i) # eachRow (Suc i) rs else eachRow (Suc i) rs)"

text \<open>
  \<open>worksheet.rowCount\<close> is the number of the last existing row: the length of the row array
  without its trailing holes.
\<close>

definition lastRowNumber :: "row option list \<Rightarrow> nat" where
  "lastRowNumber rs = length (dropWhile (\<lambda>r. r = None) (rev rs))"

definition wsRowCount :: "worksheet \<Rightarrow> nat" where
  "wsRowCount ws = lastRowNumber (wsRows ws)"

text \<open>
  Assignment to an index of a JavaScript array, which extends the array with holes when
  the index lies beyond its end, and reading an index, which gives \<open>undefined\<close> there.
\<close>

definition jsArraySet :: "'a option list \<Rightarrow> nat \<Rightarrow> 'a \<Rightarrow> 'a option list" where
  "jsArraySet xs i v =
     (if i < length xs then xs[i := Some v]
      else xs @ replicate (i - length xs) None @ [Some v])"

definition jsArrayGet :: "'a option list \<Rightarrow> nat \<Rightarrow> 'a option" where
  "jsArrayGet xs i = (if i < length xs then xs ! i else None)"

text \<open>
  \<open>worksheet.getRow(r)\<close> returns row \<open>r\<close> and, when the worksheet has no such row, first
  stores a new empty row at that position: the worksheet changes, and its \<open>rowCount\<close>
  is at least \<open>r\<close> afterwards. Row numbers start at 1.
\<close>

definition getRow :: "worksheet \<Rightarrow> nat \<Rightarrow> row \<times> worksheet" where
  "getRow ws r =
     (case jsArrayGet (wsRows ws) (r - 1) of
        Some rw \<Rightarrow> (rw, ws)
      | None \<Rightarrow> ([], ws\<lparr> wsRows := jsArraySet (wsRows ws) (r - 1) [] \<rparr>))"

text \<open>
  \<open>sheetName ? workbook.getWorksheet(sheetName) : workbook.worksheets[0]\<close>; an absent or
  empty sheet name selects the first worksheet.
\<close>

definition selectWorksheet :: "workbook \<Rightarrow> string option \<Rightarrow> worksheet option" where
  "selectWorksheet wb sheetName =
     (case sheetName of
        None \<Rightarrow> (case wb of [] \<Rightarrow> None | ws # _ \<Rightarrow> Some ws)
      | Some nm \<Rightarrow>
          if nm = [] then (case wb of [] \<Rightarrow> None | ws # _ \<Rightarrow> Some ws)
          else find (\<lambda>ws. wsName ws = nm) wb)"

section \<open>The database client and the file system\<close>

datatype nvlength = NVMax | Len nat

datatype sqltype =
    SqlNVarChar nvlength
  | SqlInt
  | SqlDecimal nat nat
  | SqlBit
  | SqlDateTime

text \<open>The \<open>sql.Table\<close> object handed to \<open>request.bulk\<close>.\<close>

record sqltable =
  tableName :: string
  create :: bool
  tcolumns :: "(string \<times> sqltype \<times> bool) list"
  trows :: "jsvalue list list"

text \<open>
  Every awaited call on the outside world (the connection pool, a transaction, the file
  system) takes the state of the world, returns normally or throws, and leaves a new
  state. The repository is verified for every such world.
\<close>

record 'w externals =
  poolConnected :: "'w \<Rightarrow> bool"
  countTablesQuery :: "string \<Rightarrow> 'w \<Rightarrow> (jserror + int) \<times> 'w"
  columnNamesQuery :: "string \<Rightarrow> 'w \<Rightarrow> (jserror + string list) \<times> 'w"
  bulk :: "sqltable \<Rightarrow> 'w \<Rightarrow> (jserror + unit) \<times> 'w"
  txBegin :: "'w \<Rightarrow> (jserror + unit) \<times> 'w"
  txQuery :: "string \<Rightarrow> (string \<times> sqltype \<times> jsvalue) list \<Rightarrow> 'w \<Rightarrow> (jserror + unit) \<times> 'w"
  txCommit :: "'w \<Rightarrow> (jserror + unit) \<times> 'w"
  txRollback :: "'w \<Rightarrow> (jserror + unit) \<times> 'w"
  readFile :: "string \<Rightarrow> 'w \<Rightarrow> (jserror + workbook) \<times> 'w"

section \<open>Type inference (data.repository.ts, inferSqlType)\<close>

text \<open>Matching \<open>\d{n}\<close> and a literal character at the front of a string: the rest, or no match.\<close>

fun matchDigits :: "nat \<Rightarrow> string \<Rightarrow> string option" where
  "matchDigits 0 s = Some s"
| "matchDigits (Suc n) [] = None"
| "matchDigits (Suc n) (c # s) = (if isDigit c then matchDigits n s else None)"

fun matchChar :: "char \<Rightarrow> string \<Rightarrow> string option" where
  "matchChar c [] = None"
| "matchChar c (d # s) = (if d = c then Some s else None)"

text \<open>\<open>/^\d{4}-\d{2}-\d{2}/.exec(value)\<close> as a truth value.\<close>

definition datePattern :: "string \<Rightarrow> bool" where
  "datePattern s =
     (case matchDigits 4 s of None \<Rightarrow> False | Some s1 \<Rightarrow>
     (case matchChar (CHR ''-'') s1 of None \<Rightarrow> False | Some s2 \<Rightarrow>
     (case matchDigits 2 s2 of None \<Rightarrow> False | Some s3 \<Rightarrow>
     (case matchChar (CHR ''-'') s3 of None \<Rightarrow> False | Some s4 \<Rightarrow>
     (case matchDigits 2 s4 of None \<Rightarrow> False | Some s5 \<Rightarrow> True)))))"

fun inferSqlType :: "jsengine \<Rightarrow> jsvalue \<Rightarrow> sqltype" where
  "inferSqlType eng JNull = SqlNVarChar NVMax"
| "inferSqlType eng JUndefined = SqlNVarChar NVMax"
| "inferSqlType eng (JNumber n) = (if isInteger n then SqlInt else SqlDecimal 18 2)"
| "inferSqlType eng (JBoolean b) = SqlBit"
| "inferSqlType eng (JDate d) = SqlDateTime"
| "inferSqlType eng (JString s) =
     (if dateParses eng s \<and> datePattern s then SqlDateTime
      else if length s > 4000 then SqlNVarChar NVMax
      else SqlNVarChar (Len (if length s > 255 then 4000 else 255)))"
| "inferSqlType eng v = SqlNVarChar NVMax"

section \<open>The data repository (data.repository.ts)\<close>

record batchInsertResult =
  inserted :: nat
  failed :: nat
  errors :: "(nat \<times> string) list"

text \<open>\<open>DatabaseConnection.getPool\<close>: throws unless the pool is connected.\<close>

definition getPool :: "'w externals \<Rightarrow> 'w \<Rightarrow> jserror + unit" where
  "getPool ext w =
     (if \<not> poolConnected ext w
      then Inl (Error ''Database pool not initialized. Call connect() first.'')
      else Inr ())"

text \<open>\<open>columnMapping?.[col] || col\<close>, and \<open>columnMapping[col] || col\<close> under a given mapping.\<close>

definition mapColumn :: "(string \<rightharpoonup> string) option \<Rightarrow> string \<Rightarrow> string" where
  "mapColumn columnMapping col =
     (case columnMapping of
        None \<Rightarrow> col
      | Some m \<Rightarrow> (case m col of None \<Rightarrow> col | Some c \<Rightarrow> if c = [] then col else c))"

text \<open>
  The table that \<open>bulkInsertWithTVP\<close> builds from a batch whose first record is
  \<open>sampleRecord\<close>: one nullable column per key of the first record, typed from the first
  record's value, and one row per record.
\<close>

definition buildTable ::
  "jsengine \<Rightarrow> string \<Rightarrow> importRecord \<Rightarrow> importRecord list \<Rightarrow> (string \<rightharpoonup> string) option \<Rightarrow> sqltable" where
  "buildTable eng tname sampleRecord records columnMapping =
     (let cols = Object_keys sampleRecord in
      \<lparr> tableName = tname,
        create = False,
        tcolumns = map (\<lambda>col. (mapColumn columnMapping col,
                                inferSqlType eng (recordGet sampleRecord col), True)) cols,
        trows = map (\<lambda>record. map (\<lambda>col. recordGet record col) cols) records \<rparr>)"

text \<open>
  \<open>bulkInsertWithTVP\<close>. With an empty batch \<open>records[0]\<close> is undefined and \<open>Object.keys\<close>
  throws a TypeError; the catch block rethrows every error.
\<close>

definition bulkInsertWithTVP ::
  "'w externals \<Rightarrow> jsengine \<Rightarrow> string \<Rightarrow> importRecord list \<Rightarrow> (string \<rightharpoonup> string) option \<Rightarrow>
   'w \<Rightarrow> (jserror + batchInsertResult) \<times> 'w" where
  "bulkInsertWithTVP ext eng tname records columnMapping w =
     (case getPool ext w of
        Inl e \<Rightarrow> (Inl e, w)
      | Inr _ \<Rightarrow>
         (case records of
            [] \<Rightarrow> (Inl (Error ''Cannot convert undefined or null to object''), w)
          | sampleRecord # _ \<Rightarrow>
             (case bulk ext (buildTable eng tname sampleRecord records columnMapping) w of
                (Inl e, w') \<Rightarrow> (Inl e, w')
              | (Inr _, w') \<Rightarrow>
                  (Inr \<lparr> inserted = length records, failed = 0, errors = [] \<rparr>, w'))))"

text \<open>\<open>tableExists\<close>: a query that throws is logged and answered with \<open>false\<close>.\<close>

definition tableExists :: "'w externals \<Rightarrow> string \<Rightarrow> 'w \<Rightarrow> (jserror + bool) \<times> 'w" where
  "tableExists ext tname w =
     (case getPool ext w of
        Inl e \<Rightarrow> (Inl e, w)
      | Inr _ \<Rightarrow>
         (case countTablesQuery ext tname w of
            (Inr count, w') \<Rightarrow> (Inr (count > 0), w')
          | (Inl e, w') \<Rightarrow> (Inr False, w')))"

text \<open>\<open>getTableColumns\<close>: a query that throws is logged and rethrown.\<close>

definition getTableColumns ::
  "'w externals \<Rightarrow> string \<Rightarrow> 'w \<Rightarrow> (jserror + string list) \<times> 'w" where
  "getTableColumns ext tname w =
     (case getPool ext w of
        Inl e \<Rightarrow> (Inl e, w)
      | Inr _ \<Rightarrow>
         (case columnNamesQuery ext tname w of
            (Inr names, w') \<Rightarrow> (Inr names, w')
          | (Inl e, w') \<Rightarrow> (Inl e, w')))"

text \<open>\<open>xs.join(', ')\<close> on an array of strings.\<close>

fun join :: "string list \<Rightarrow> string" where
  "join [] = []"
| "join [x] = x"
| "join (x # y # ys) = x @ '', '' @ join (y # ys)"

text \<open>The decimal digits of a number, as template strings print it.\<close>

function natToString :: "nat \<Rightarrow> string" where
  "natToString n =
     (if n < 10 then [char_of (48 + n)]
      else natToString (n div 10) @ [char_of (48 + n mod 10)])"
  by pat_completeness auto
termination
  by (relation "measure id") auto

declare natToString.simps [simp del]

text \<open>\<open>error instanceof Error ? error.message : 'Unknown error'\<close>\<close>

fun errorMessage :: "jserror \<Rightarrow> string" where
  "errorMessage (Error m) = m"
| "errorMessage Thrown = ''Unknown error''"

text \<open>
  The parameters that \<open>bulkInsert\<close> binds for one record: \<open>request.input(`col${index}`,
  sqlType, value)\<close> for every column of the first record.
\<close>

definition rowParameters ::
  "jsengine \<Rightarrow> string list \<Rightarrow> importRecord \<Rightarrow> (string \<times> sqltype \<times> jsvalue) list" where
  "rowParameters eng cols record =
     map (\<lambda>(index, col). (''col'' @ natToString index,
                            inferSqlType eng (recordGet record col), recordGet record col))
       (enumerate 0 cols)"

definition insertQueryText :: "string \<Rightarrow> string list \<Rightarrow> string" where
  "insertQueryText tname mappedColumns =
     ''INSERT INTO '' @ tname @ '' ('' @ join mappedColumns @ '') VALUES ('' @
     join (map (\<lambda>(i, c). ''@col'' @ natToString i) (enumerate 0 mappedColumns)) @ '')''"

text \<open>
  The row loop of \<open>bulkInsert\<close>, on the records still to insert, the index \<open>i\<close> of the next
  one, and the pair of \<open>inserted\<close> and \<open>errors\<close>: a row whose query throws is recorded with
  its row number \<open>i + 1\<close> and the loop goes on.
\<close>

fun insertRows ::
  "'w externals \<Rightarrow> jsengine \<Rightarrow> string \<Rightarrow> string list \<Rightarrow> importRecord list \<Rightarrow> nat \<Rightarrow>
   nat \<times> (nat \<times> string) list \<Rightarrow> 'w \<Rightarrow> (nat \<times> (nat \<times> string) list) \<times> 'w" where
  "insertRows ext eng insertQuery cols [] i acc w = (acc, w)"
| "insertRows ext eng insertQuery cols (record # rest) i acc w =
     (case txQuery ext insertQuery (rowParameters eng cols record) w of
        (Inr _, w') \<Rightarrow>
          insertRows ext eng insertQuery cols rest (Suc i) (Suc (fst acc), snd acc) w'
      | (Inl e, w') \<Rightarrow>
          insertRows ext eng insertQuery cols rest (Suc i)
            (fst acc, snd acc @ [(i + 1, errorMessage e)]) w')"

text \<open>The outer \<open>catch\<close> of \<open>bulkInsert\<close>: roll back, then rethrow.\<close>

definition rollbackAndRethrow ::
  "'w externals \<Rightarrow> jserror \<Rightarrow> 'w \<Rightarrow> (jserror + batchInsertResult) \<times> 'w" where
  "rollbackAndRethrow ext e w =
     (case txRollback ext w of
        (Inl e', w') \<Rightarrow> (Inl e', w')
      | (Inr _, w') \<Rightarrow> (Inl e, w'))"

text \<open>\<open>bulkInsert\<close>: one parameterized insert per row inside one transaction.\<close>

definition bulkInsert ::
  "'w externals \<Rightarrow> jsengine \<Rightarrow> string \<Rightarrow> importRecord list \<Rightarrow> (string \<rightharpoonup> string) option \<Rightarrow>
   'w \<Rightarrow> (jserror + batchInsertResult) \<times> 'w" where
  "bulkInsert ext eng tname records columnMapping w =
     (case getPool ext w of
        Inl e \<Rightarrow> (Inl e, w)
      | Inr _ \<Rightarrow>
         (case txBegin ext w of
            (Inl e, w1) \<Rightarrow> rollbackAndRethrow ext e w1
          | (Inr _, w1) \<Rightarrow>
             (case records of
                [] \<Rightarrow>
                  rollbackAndRethrow ext (Error ''Cannot convert undefined or null to object'') w1
              | sampleRecord # _ \<Rightarrow>
                 (let cols = Object_keys sampleRecord;
                      mappedColumns = map (mapColumn columnMapping) cols;
                      insertQuery = insertQueryText tname mappedColumns
                  in case insertRows ext eng insertQuery cols records 0 (0, []) w1 of
                       (acc, w2) \<Rightarrow>
                         (case txCommit ext w2 of
                            (Inl e, w3) \<Rightarrow> rollbackAndRethrow ext e w3
                          | (Inr _, w3) \<Rightarrow>
                              (Inr \<lparr> inserted = fst acc, failed = length (snd acc),
                                     errors = snd acc \<rparr>, w3))))))"

section \<open>The spreadsheet service (excel.service.ts)\<close>

text \<open>\<open>String(v)\<close>.\<close>

fun String_of :: "jsengine \<Rightarrow> jsvalue \<Rightarrow> string" where
  "String_of eng JNull = ''null''"
| "String_of eng JUndefined = ''undefined''"
| "String_of eng (JNumber n) = numberToString eng n"
| "String_of eng (JString s) = s"
| "String_of eng (JBoolean b) = (if b then ''true'' else ''false'')"
| "String_of eng (JDate d) = dateToString eng d"
| "String_of eng v = ''[object Object]''"

text \<open>\<open>s.trim()\<close>: the white space code units below 256 are removed from both ends.\<close>

definition isWhiteSpace :: "char \<Rightarrow> bool" where
  "isWhiteSpace c = ((of_char c :: nat) \<in> {9, 10, 11, 12, 13, 32, 160})"

definition trim :: "string \<Rightarrow> string" where
  "trim s = rev (dropWhile isWhiteSpace (rev (dropWhile isWhiteSpace s)))"

text \<open>\<open>(error as Error).message\<close> of a caught value, inside a template string.\<close>

fun messageOf :: "jserror \<Rightarrow> string" where
  "messageOf (Error m) = m"
| "messageOf Thrown = ''undefined''"

text \<open>\<open>getCellValue\<close>.\<close>

definition getCellValue :: "jsengine \<Rightarrow> cell \<Rightarrow> jsvalue" where
  "getCellValue eng c =
     (if cellValue c = JNull \<or> cellValue c = JUndefined then JNull
      else if cellType c = TDate then cellValue c
      else if cellType c = TFormula then
        (case cellValue c of
           JFormulaObj f formulaValue \<Rightarrow>
             (case formulaValue of
                JNull \<Rightarrow> JNull
              | JUndefined \<Rightarrow> JNull
              | JNumber n \<Rightarrow> formulaValue
              | JString t \<Rightarrow> formulaValue
              | _ \<Rightarrow> JString (String_of eng formulaValue))
         | v \<Rightarrow> v)
      else
        (case cellValue c of
           JRichTextObj texts \<Rightarrow> JString (concat texts)
         | JHyperlinkObj t h \<Rightarrow> JString t
         | v \<Rightarrow> v))"

text \<open>
  The header array: \<open>headerRow.eachCell((cell, colNumber) => headers[colNumber - 1] =
  String(cell.value).trim())\<close>.
\<close>

definition readHeaders :: "jsengine \<Rightarrow> row \<Rightarrow> string option list" where
  "readHeaders eng headerRow =
     foldl (\<lambda>headers (c, colNumber).
              jsArraySet headers (colNumber - 1) (trim (String_of eng (cellValue c))))
       [] (eachCell 0 headerRow)"

text \<open>The callback of \<open>row.eachCell\<close> inside \<open>streamExcelRows\<close>, on the pair (record, hasData).\<close>

definition cellCallback ::
  "jsengine \<Rightarrow> string option list \<Rightarrow> importRecord \<times> bool \<Rightarrow> cell \<times> nat \<Rightarrow> importRecord \<times> bool" where
  "cellCallback eng headers st cn =
     (case jsArrayGet headers (snd cn - 1) of
        None \<Rightarrow> st
      | Some header \<Rightarrow>
          if header = [] then st
          else (let v = getCellValue eng (fst cn)
                in (recordSet (fst st) header v, snd st \<or> (v \<noteq> JNull \<and> v \<noteq> JString []))))"

text \<open>The callback of \<open>worksheet.eachRow\<close> inside \<open>streamExcelRows\<close>, on the array \<open>batch\<close>.\<close>

definition rowCallback ::
  "jsengine \<Rightarrow> string option list \<Rightarrow> nat \<Rightarrow> importRecord list \<Rightarrow> row \<times> nat \<Rightarrow> importRecord list" where
  "rowCallback eng headers skipRows batch rn =
     (if snd rn \<le> 1 + skipRows then batch
      else (let st = foldl (cellCallback eng headers) ([], False) (eachCellIncludeEmpty 0 (fst rn))
            in if snd st then batch @ [fst st] else batch))"

text \<open>
  The array \<open>batch\<close> when \<open>streamExcelRows\<close> reaches its \<open>for\<close> loop: every admitted row of
  the worksheet.
\<close>

definition collectRows :: "jsengine \<Rightarrow> worksheet \<Rightarrow> nat \<Rightarrow> importRecord list" where
  "collectRows eng worksheet skipRows =
     (case getRow worksheet (1 + skipRows) of
        (headerRow, ws1) \<Rightarrow>
          foldl (rowCallback eng (readHeaders eng headerRow) skipRows) [] (eachRow 0 (wsRows ws1)))"

definition batchSize :: nat where
  "batchSize = 500"

text \<open>\<open>xs.slice(a, b)\<close> for \<open>0 \<le> a \<le> b\<close>.\<close>

definition slice :: "'a list \<Rightarrow> nat \<Rightarrow> nat \<Rightarrow> 'a list" where
  "slice xs a b = take (b - a) (drop a xs)"

text \<open>\<open>for (let i = 0; i < batch.length; i += batchSize) yield batch.slice(i, i + batchSize)\<close>\<close>

function yieldBatches :: "'a list \<Rightarrow> nat \<Rightarrow> 'a list list" where
  "yieldBatches batch i =
     (if i < length batch
      then slice batch i (i + batchSize) # yieldBatches batch (i + batchSize)
      else [])"
  by pat_completeness auto
termination
  by (relation "measure (\<lambda>(batch, i). length batch - i)") (auto simp: batchSize_def)

declare yieldBatches.simps [simp del]

definition worksheetNotFound :: "string option \<Rightarrow> jserror" where
  "worksheetNotFound sheetName =
     Error (''Worksheet '' @
            (case sheetName of None \<Rightarrow> ''default''
             | Some nm \<Rightarrow> if nm = [] then ''default'' else nm) @ '' not found'')"

text \<open>
  \<open>streamExcelRows\<close>, as the list of the batches it yields when it is run to its end. All
  its reading happens before the first \<open>yield\<close>; an error there is rethrown.
\<close>

definition streamExcelRows ::
  "'w externals \<Rightarrow> jsengine \<Rightarrow> string \<Rightarrow> string option \<Rightarrow> nat \<Rightarrow> 'w \<Rightarrow>
   (jserror + importRecord list list) \<times> 'w" where
  "streamExcelRows ext eng filePath sheetName skipRows w =
     (case readFile ext filePath w of
        (Inl e, w') \<Rightarrow> (Inl e, w')
      | (Inr workbook, w') \<Rightarrow>
          (case selectWorksheet workbook sheetName of
             None \<Rightarrow> (Inl (worksheetNotFound sheetName), w')
           | Some worksheet \<Rightarrow>
               (Inr (yieldBatches (collectRows eng worksheet skipRows) 0), w')))"

text \<open>
  The same generator, one \<open>next()\<close> at a time. Before its first \<open>next()\<close> it has not run;
  between two of them it is suspended at the \<open>yield\<close>, holding the array \<open>batch\<close> and the
  loop index \<open>i\<close>; after its last one, or after a throw, it is done. \<open>genNext\<close> gives what
  \<open>next()\<close> returns (a batch, or nothing when the generator is done), the generator's new
  state and the new world.
\<close>

datatype genState = GenStart | GenSuspended "importRecord list" nat | GenDone

definition genLoop ::
  "importRecord list \<Rightarrow> nat \<Rightarrow> 'w \<Rightarrow> (jserror + importRecord list option) \<times> genState \<times> 'w" where
  "genLoop batch i w =
     (if i < length batch
      then (Inr (Some (slice batch i (i + batchSize))), GenSuspended batch i, w)
      else (Inr None, GenDone, w))"

fun genNext ::
  "'w externals \<Rightarrow> jsengine \<Rightarrow> string \<Rightarrow> string option \<Rightarrow> nat \<Rightarrow> genState \<Rightarrow> 'w \<Rightarrow>
   (jserror + importRecord list option) \<times> genState \<times> 'w" where
  "genNext ext eng filePath sheetName skipRows GenStart w =
     (case readFile ext filePath w of
        (Inl e, w') \<Rightarrow> (Inl e, GenDone, w')
      | (Inr workbook, w') \<Rightarrow>
          (case selectWorksheet workbook sheetName of
             None \<Rightarrow> (Inl (worksheetNotFound sheetName), GenDone, w')
           | Some worksheet \<Rightarrow> genLoop (collectRows eng worksheet skipRows) 0 w'))"
| "genNext ext eng filePath sheetName skipRows (GenSuspended batch i) w =
     genLoop batch (i + batchSize) w"
| "genNext ext eng filePath sheetName skipRows GenDone w = (Inr None, GenDone, w)"

text \<open>
  The consumer's \<open>for await\<close> loop without its body: \<open>next()\<close> is called until the
  generator is done or throws, and the batches it returned are collected.
\<close>

function pullAll ::
  "'w externals \<Rightarrow> jsengine \<Rightarrow> string \<Rightarrow> string option \<Rightarrow> nat \<Rightarrow> genState \<Rightarrow> 'w \<Rightarrow>
   (jserror + importRecord list list) \<times> 'w" where
  "pullAll ext eng filePath sheetName skipRows st w =
     (case genNext ext eng filePath sheetName skipRows st w of
        (Inl e, st', w') \<Rightarrow> (Inl e, w')
      | (Inr None, st', w') \<Rightarrow> (Inr [], w')
      | (Inr (Some b), st', w') \<Rightarrow>
          (case pullAll ext eng filePath sheetName skipRows st' w' of
             (Inl e, w'') \<Rightarrow> (Inl e, w'')
           | (Inr bs, w'') \<Rightarrow> (Inr (b # bs), w'')))"
  by pat_completeness auto
termination
proof (relation "measures [\<lambda>(ext, eng, filePath, sheetName, skipRows, st, w).
                              (if st = GenStart then 1 else 0),
                            \<lambda>(ext, eng, filePath, sheetName, skipRows, st, w).
                              (case st of GenSuspended batch i \<Rightarrow> length batch - i | _ \<Rightarrow> 0)]",
       goal_cases)
  case 1
  show ?case by simp
next
  case (2 ext eng filePath sheetName skipRows st w x1 x2 x3 x4 x5 x6)
  then show ?case
    by (cases st)
       (auto simp: genLoop_def batchSize_def split: prod.splits sum.splits option.splits if_splits)
qed

declare pullAll.simps [simp del]

text \<open>\<open>getRowCount\<close>: \<open>Math.max(0, worksheet.rowCount - (1 + skipRows))\<close>.\<close>

definition getRowCount ::
  "'w externals \<Rightarrow> string \<Rightarrow> string option \<Rightarrow> nat \<Rightarrow> 'w \<Rightarrow> (jserror + nat) \<times> 'w" where
  "getRowCount ext filePath sheetName skipRows w =
     (case readFile ext filePath w of
        (Inl e, w') \<Rightarrow> (Inl e, w')
      | (Inr workbook, w') \<Rightarrow>
          (case selectWorksheet workbook sheetName of
             None \<Rightarrow> (Inl (worksheetNotFound sheetName), w')
           | Some worksheet \<Rightarrow>
               (Inr (nat (max 0 (int (wsRowCount worksheet) - (1 + int skipRows)))), w')))"

record validationError =
  field :: string
  message :: string

record excelValidationResult =
  isValid :: bool
  verrors :: "validationError list"
  rowCount :: nat
  columns :: "string option list"

text \<open>
  \<open>validateExcel\<close>. The header row is fetched with \<open>getRow\<close> before \<open>worksheet.rowCount\<close>
  is read. Every error is caught and reported in the result.
\<close>

definition validateExcel ::
  "'w externals \<Rightarrow> jsengine \<Rightarrow> string \<Rightarrow> string list \<Rightarrow> string option \<Rightarrow> nat \<Rightarrow> 'w \<Rightarrow>
   excelValidationResult \<times> 'w" where
  "validateExcel ext eng filePath requiredColumns sheetName skipRows w =
     (case readFile ext filePath w of
        (Inl e, w') \<Rightarrow>
          (\<lparr> isValid = False,
             verrors = [\<lparr> field = ''file'',
                         message = ''Failed to read Excel file: '' @ messageOf e \<rparr>],
             rowCount = 0, columns = [] \<rparr>, w')
      | (Inr workbook, w') \<Rightarrow>
          (case selectWorksheet workbook sheetName of
             None \<Rightarrow>
               (\<lparr> isValid = False,
                  verrors = [\<lparr> field = ''worksheet'',
                              message = (case worksheetNotFound sheetName of Error m \<Rightarrow> m
                                         | Thrown \<Rightarrow> []) \<rparr>],
                  rowCount = 0, columns = [] \<rparr>, w')
           | Some worksheet \<Rightarrow>
               (case getRow worksheet (1 + skipRows) of
                  (headerRow, ws1) \<Rightarrow>
                    (let headers = readHeaders eng headerRow;
                         missingColumns = filter (\<lambda>col. Some col \<notin> set headers) requiredColumns;
                         errors1 = (if requiredColumns \<noteq> [] \<and> missingColumns \<noteq> []
                                    then [\<lparr> field = ''columns'',
                                             message = ''Missing required columns: '' @
                                                       join missingColumns \<rparr>]
                                    else []);
                         count = int (wsRowCount ws1) - (1 + int skipRows);
                         errors2 = (if count = 0
                                    then errors1 @ [\<lparr> field = ''rows'',
                                                       message = ''Excel file contains no data rows'' \<rparr>]
                                    else errors1)
                     in (\<lparr> isValid = (errors2 = []), verrors = errors2,
                           rowCount = nat (max 0 count), columns = headers \<rparr>, w')))))"

section \<open>The import service (import.service.ts)\<close>

record jobProgress =
  total :: nat
  processed :: nat
  pfailed :: nat
  percentage :: jsnumber

text \<open>\<open>Math.round((processedCount / totalRecords) * 100)\<close>\<close>

definition percentageOf :: "nat \<Rightarrow> nat \<Rightarrow> jsnumber" where
  "percentageOf processedCount totalRecords =
     Math_round (js_mul (js_div (Num (of_nat processedCount)) (Num (of_nat totalRecords))) (Num 100))"

text \<open>
  The variables of the batch loop of \<open>processImport\<close>, and the progress records handed to
  \<open>onProgress\<close> so far, in call order.
\<close>

record importState =
  successCount :: nat
  failedCount :: nat
  processedCount :: nat
  emitted :: "jobProgress list"

text \<open>The body of the \<open>for await\<close> loop: one batch, with its own \<open>try\<close> and \<open>catch\<close>.\<close>

definition batchStep ::
  "'w externals \<Rightarrow> jsengine \<Rightarrow> string \<Rightarrow> (string \<rightharpoonup> string) option \<Rightarrow> nat \<Rightarrow>
   importState \<Rightarrow> importRecord list \<Rightarrow> 'w \<Rightarrow> importState \<times> 'w" where
  "batchStep ext eng tname columnMapping totalRecords st batch w =
     (case bulkInsertWithTVP ext eng tname batch columnMapping w of
        (Inr result, w') \<Rightarrow>
          (let sc = successCount st + inserted result;
               fc = failedCount st + failed result;
               pc = processedCount st + length batch;
               progress = \<lparr> total = totalRecords, processed = pc, pfailed = fc,
                            percentage = percentageOf pc totalRecords \<rparr>
           in (\<lparr> successCount = sc, failedCount = fc, processedCount = pc,
                  emitted = emitted st @ [progress] \<rparr>, w'))
      | (Inl e, w') \<Rightarrow>
          (st\<lparr> failedCount := failedCount st + length batch \<rparr>, w'))"

fun processBatches ::
  "'w externals \<Rightarrow> jsengine \<Rightarrow> string \<Rightarrow> (string \<rightharpoonup> string) option \<Rightarrow> nat \<Rightarrow>
   importRecord list list \<Rightarrow> importState \<Rightarrow> 'w \<Rightarrow> importState \<times> 'w" where
  "processBatches ext eng tname columnMapping totalRecords [] st w = (st, w)"
| "processBatches ext eng tname columnMapping totalRecords (batch # rest) st w =
     (case batchStep ext eng tname columnMapping totalRecords st batch w of
        (st', w') \<Rightarrow> processBatches ext eng tname columnMapping totalRecords rest st' w')"

definition tableMissing :: "string \<Rightarrow> string" where
  "tableMissing tname = ''Table '' @ tname @ '' does not exist''"

text \<open>
  \<open>processImport\<close>. The result is the final loop state, whose \<open>successCount\<close> and
  \<open>failedCount\<close> the source returns; the measured duration is left out. The outer
  \<open>catch\<close> logs and rethrows.
\<close>

definition processImport ::
  "'w externals \<Rightarrow> jsengine \<Rightarrow> string \<Rightarrow> string \<Rightarrow> string option \<Rightarrow> (string \<rightharpoonup> string) option \<Rightarrow>
   nat \<Rightarrow> 'w \<Rightarrow> (jserror + importState) \<times> 'w" where
  "processImport ext eng filePath tname sheetName columnMapping skipRows w =
     (case tableExists ext tname w of
        (Inl e, w1) \<Rightarrow> (Inl e, w1)
      | (Inr exists, w1) \<Rightarrow>
          if \<not> exists then (Inl (Error (tableMissing tname)), w1)
          else
            (case getRowCount ext filePath sheetName skipRows w1 of
               (Inl e, w2) \<Rightarrow> (Inl e, w2)
             | (Inr totalRecords, w2) \<Rightarrow>
                 (case streamExcelRows ext eng filePath sheetName skipRows w2 of
                    (Inl e, w3) \<Rightarrow> (Inl e, w3)
                  | (Inr batches, w3) \<Rightarrow>
                      (case processBatches ext eng tname columnMapping totalRecords batches
                              \<lparr> successCount = 0, failedCount = 0, processedCount = 0,
                                emitted = [] \<rparr> w3 of
                         (st, w4) \<Rightarrow> (Inr st, w4)))))"

record importValidation =
  iIsValid :: bool
  iErrors :: "string list"
  iRowCount :: nat

definition validationFailed :: "jserror \<Rightarrow> importValidation" where
  "validationFailed e =
     \<lparr> iIsValid = False, iErrors = [''Validation error: '' @ messageOf e], iRowCount = 0 \<rparr>"

text \<open>\<open>validateImport\<close>: every error thrown inside is caught and reported.\<close>

definition validateImport ::
  "'w externals \<Rightarrow> jsengine \<Rightarrow> string \<Rightarrow> string \<Rightarrow> string option \<Rightarrow> nat \<Rightarrow> 'w \<Rightarrow>
   importValidation \<times> 'w" where
  "validateImport ext eng filePath tname sheetName skipRows w =
     (case tableExists ext tname w of
        (Inl e, w1) \<Rightarrow> (validationFailed e, w1)
      | (Inr exists, w1) \<Rightarrow>
          (let errors0 = (if \<not> exists then [tableMissing tname] else [])
           in case (if exists then getTableColumns ext tname w1 else (Inr [], w1)) of
                (Inl e, w2) \<Rightarrow> (validationFailed e, w2)
              | (Inr requiredColumns, w2) \<Rightarrow>
                  (case validateExcel ext eng filePath requiredColumns sheetName skipRows w2 of
                     (validation, w3) \<Rightarrow>
                       (let errors1 = (if \<not> isValid validation
                                       then errors0 @ map message (verrors validation)
                                       else errors0)
                        in (\<lparr> iIsValid = (errors1 = []), iErrors = errors1,
                              iRowCount = rowCount validation \<rparr>, w3)))))"

section \<open>Vocabulary of the specification\<close>

text \<open>
  The claim's wording of the string cases: the string starts with four digits, a hyphen,
  two digits, a hyphen and two digits.
\<close>

definition startsWithIsoDate :: "string \<Rightarrow> bool" where
  "startsWithIsoDate s =
     (10 \<le> length s \<and> list_all isDigit (take 4 s) \<and> s ! 4 = CHR ''-'' \<and>
      list_all isDigit (take 2 (drop 5 s)) \<and> s ! 7 = CHR ''-'' \<and>
      list_all isDigit (take 2 (drop 8 s)))"

definition integralNumber :: "jsnumber \<Rightarrow> bool" where
  "integralNumber n = (\<exists>k::int. n = Num (of_int k))"

text \<open>The rows of the worksheet below the header row, the worksheet's holes left out.\<close>

definition rowsAfterHeader :: "worksheet \<Rightarrow> nat \<Rightarrow> row list" where
  "rowsAfterHeader ws skipRows = List.map_filter id (drop (1 + skipRows) (wsRows ws))"

definition headersOf :: "jsengine \<Rightarrow> worksheet \<Rightarrow> nat \<Rightarrow> string option list" where
  "headersOf eng ws skipRows = readHeaders eng (fst (getRow ws (1 + skipRows)))"

text \<open>Column \<open>i + 1\<close> has a header that is not blank.\<close>

definition headed :: "string option list \<Rightarrow> nat \<Rightarrow> bool" where
  "headed headers i = (case jsArrayGet headers i of None \<Rightarrow> False | Some h \<Rightarrow> h \<noteq> [])"

text \<open>A cell coerces to a value that is neither null nor the empty string.\<close>

definition cellHasData :: "jsengine \<Rightarrow> cell option \<Rightarrow> bool" where
  "cellHasData eng c =
     (case c of None \<Rightarrow> False
      | Some cl \<Rightarrow> getCellValue eng cl \<noteq> JNull \<and> getCellValue eng cl \<noteq> JString [])"

text \<open>
  The claim's admission test (some cell of the row has data), and the one that takes
  the headers into account (some cell under a non-blank header has data).
\<close>

definition rowHasValue :: "jsengine \<Rightarrow> row \<Rightarrow> bool" where
  "rowHasValue eng r = list_ex (cellHasData eng) r"

definition rowAdmitted :: "jsengine \<Rightarrow> string option list \<Rightarrow> row \<Rightarrow> bool" where
  "rowAdmitted eng headers r =
     list_ex (\<lambda>(i, c). headed headers i \<and> cellHasData eng c) (enumerate 0 r)"

definition rowRecord :: "jsengine \<Rightarrow> string option list \<Rightarrow> row \<Rightarrow> importRecord" where
  "rowRecord eng headers r =
     fst (foldl (cellCallback eng headers) ([], False) (eachCellIncludeEmpty 0 r))"


text \<open>The world in which the table count answers 0 where it would have answered in \<open>ext\<close>.\<close>

definition tableAbsent :: "'w externals \<Rightarrow> 'w externals" where
  "tableAbsent ext =
     ext\<lparr> countTablesQuery := (\<lambda>t w. (Inr 0, snd (countTablesQuery ext t w))) \<rparr>"

text \<open>The three steps of \<open>processImport\<close> before its loop, and whether one of them fails.\<close>

definition preflightFails ::
  "'w externals \<Rightarrow> jsengine \<Rightarrow> string \<Rightarrow> string \<Rightarrow> string option \<Rightarrow> nat \<Rightarrow> 'w \<Rightarrow> bool" where
  "preflightFails ext eng filePath tname sheetName skipRows w =
     (case tableExists ext tname w of
        (r1, w1) \<Rightarrow>
          r1 \<noteq> Inr True \<or>
          (case getRowCount ext filePath sheetName skipRows w1 of
             (r2, w2) \<Rightarrow>
               isl r2 \<or> isl (fst (streamExcelRows ext eng filePath sheetName skipRows w2))))"

text \<open>
  What the query of each row of a batch does, in row order, when the rows are inserted
  one after the other from the world \<open>w\<close>; and the error entries of the rows that threw,
  where the first outcome belongs to row number \<open>i + 1\<close>.
\<close>

fun rowOutcomes ::
  "'w externals \<Rightarrow> jsengine \<Rightarrow> string \<Rightarrow> string list \<Rightarrow> importRecord list \<Rightarrow> 'w \<Rightarrow>
   (jserror + unit) list" where
  "rowOutcomes ext eng insertQuery cols [] w = []"
| "rowOutcomes ext eng insertQuery cols (record # rest) w =
     (case txQuery ext insertQuery (rowParameters eng cols record) w of
        (r, w') \<Rightarrow> r # rowOutcomes ext eng insertQuery cols rest w')"

fun failedRows :: "nat \<Rightarrow> (jserror + unit) list \<Rightarrow> (nat \<times> string) list" where
  "failedRows i [] = []"
| "failedRows i (Inl e # outs) = (i + 1, errorMessage e) # failedRows (Suc i) outs"
| "failedRows i (Inr u # outs) = failedRows (Suc i) outs"

section \<open>Fixtures\<close>

text \<open>A JavaScript engine for the concrete evaluations below.\<close>

definition plainEngine :: jsengine where
  "plainEngine = \<lparr> numberToString = (\<lambda>n. ''0''), dateToString = (\<lambda>d. ''Invalid Date''),
                   dateParses = (\<lambda>s. False) \<rparr>"

text \<open>
  A world whose state is the number of calls made so far. What a call returns is scripted
  by that number: \<open>files\<close> for \<open>readFile\<close>, \<open>tables\<close> for the table count, \<open>cols\<close> for the
  column names, \<open>bulks\<close> for \<open>request.bulk\<close> and \<open>queries\<close> for a query inside a
  transaction. The pool is connected; begin, commit and rollback succeed.
\<close>

definition scriptedWorld ::
  "(nat \<Rightarrow> jserror + workbook) \<Rightarrow> (nat \<Rightarrow> jserror + int) \<Rightarrow> (nat \<Rightarrow> jserror + string list) \<Rightarrow>
   (nat \<Rightarrow> jserror + unit) \<Rightarrow> (nat \<Rightarrow> jserror + unit) \<Rightarrow> nat externals" where
  "scriptedWorld files tables cols bulks queries =
     \<lparr> poolConnected = (\<lambda>w. True),
       countTablesQuery = (\<lambda>t w. (tables w, Suc w)),
       columnNamesQuery = (\<lambda>t w. (cols w, Suc w)),
       bulk = (\<lambda>t w. (bulks w, Suc w)),
       txBegin = (\<lambda>w. (Inr (), Suc w)),
       txQuery = (\<lambda>q ps w. (queries w, Suc w)),
       txCommit = (\<lambda>w. (Inr (), Suc w)),
       txRollback = (\<lambda>w. (Inr (), Suc w)),
       readFile = (\<lambda>f w. (files w, Suc w)) \<rparr>"

text \<open>The world in which every call succeeds, the table exists and the file holds \<open>wb\<close>.\<close>

definition calmWorld :: "workbook \<Rightarrow> nat externals" where
  "calmWorld wb =
     scriptedWorld (\<lambda>w. Inr wb) (\<lambda>w. Inr 1) (\<lambda>w. Inr []) (\<lambda>w. Inr ()) (\<lambda>w. Inr ())"

text \<open>A worksheet with the header \<open>Name\<close> in row 1 and \<open>n\<close> data rows below it.\<close>

definition nameRow :: "row option" where
  "nameRow = Some [Some (Cell (JString ''Ada''))]"

definition nameSheet :: "nat \<Rightarrow> worksheet" where
  "nameSheet n =
     \<lparr> wsName = ''Sheet1'',
       wsRows = Some [Some (Cell (JString ''Name''))] # replicate n nameRow \<rparr>"

text \<open>
  A worksheet with the header \<open>Name\<close> in column A and one data row whose only value
  stands in column B, which has no header.
\<close>

definition orphanSheet :: worksheet where
  "orphanSheet =
     \<lparr> wsName = ''Sheet1'',
       wsRows = [Some [Some (Cell (JString ''Name''))],
                 Some [None, Some (Cell (JString ''x''))]] \<rparr>"

text \<open>
  The file grows between the row count and the stream: the first read (at state 1)
  finds two data rows, every later read three.
\<close>

definition growingWorld :: "nat externals" where
  "growingWorld =
     scriptedWorld (\<lambda>w. if w = 1 then Inr [nameSheet 2] else Inr [nameSheet 3])
       (\<lambda>w. Inr 1) (\<lambda>w. Inr []) (\<lambda>w. Inr ()) (\<lambda>w. Inr ())"

text \<open>The file is removed between the row count and the stream.\<close>

definition vanishingWorld :: "nat externals" where
  "vanishingWorld =
     scriptedWorld
       (\<lambda>w. if w = 1 then Inr [nameSheet 2]
             else Inl (Error ''ENOENT: no such file or directory''))
       (\<lambda>w. Inr 1) (\<lambda>w. Inr []) (\<lambda>w. Inr ()) (\<lambda>w. Inr ())"

text \<open>
  The file holds 501 data rows and the first bulk insert (at state 3) throws, the
  later ones succeed.
\<close>

definition stormWorld :: "nat externals" where
  "stormWorld =
     scriptedWorld (\<lambda>w. Inr [nameSheet 501]) (\<lambda>w. Inr 1) (\<lambda>w. Inr [])
       (\<lambda>w. if w = 3 then Inl (Error ''Conversion failed'') else Inr ()) (\<lambda>w. Inr ())"

text \<open>The database is unreachable: the table-count query throws.\<close>

definition outageWorld :: "nat externals" where
  "outageWorld =
     scriptedWorld (\<lambda>w. Inr [nameSheet 2]) (\<lambda>w. Inl (Error ''Connection lost''))
       (\<lambda>w. Inr []) (\<lambda>w. Inr ()) (\<lambda>w. Inr ())"

text \<open>The record read from a data row of \<open>nameSheet\<close>.\<close>

definition adaRecord :: importRecord where
  "adaRecord = [(''Name'', JString ''Ada'')]"

text \<open>
  Row 250 of a batch is incompatible with its column type: the 250th query of the
  transaction (at state 250, after \<open>begin\<close> at state 0) throws, every other one succeeds.
\<close>

definition conversionFailed :: string where
  "conversionFailed = ''Conversion failed when converting the nvarchar value to data type int.''"

definition row250World :: "nat externals" where
  "row250World =
     scriptedWorld (\<lambda>w. Inr []) (\<lambda>w. Inr 1) (\<lambda>w. Inr []) (\<lambda>w. Inr ())
       (\<lambda>w. if w = 250 then Inl (Error conversionFailed) else Inr ())"


section \<open>Properties of type inference\<close>

lemma floor_fixed_iff: "(of_int \<lfloor>q::rat\<rfloor> = q) = (\<exists>k::int. q = of_int k)"
  by (metis floor_of_int)

lemma isInteger_integral: "isInteger n = integralNumber n"
  by (cases n) (simp_all add: integralNumber_def floor_fixed_iff)

lemma matchDigits_Some:
  "matchDigits n s = Some r \<longleftrightarrow> (n \<le> length s \<and> list_all isDigit (take n s) \<and> r = drop n s)"
proof (induction n s rule: matchDigits.induct)
  case (1 s)
  show ?case by auto
next
  case (2 n)
  show ?case by simp
next
  case (3 n c s)
  then show ?case by (cases "isDigit c") auto
qed

lemma matchChar_Some:
  "matchChar c s = Some r \<longleftrightarrow> (s \<noteq> [] \<and> hd s = c \<and> r = tl s)"
  by (cases s) auto

lemma matchDigits_None:
  "matchDigits n s = None \<longleftrightarrow> \<not> (n \<le> length s \<and> list_all isDigit (take n s))"
proof -
  have "matchDigits n s = None \<longleftrightarrow> (\<forall>r. matchDigits n s \<noteq> Some r)" by auto
  then show ?thesis by (auto simp add: matchDigits_Some)
qed

lemma matchChar_None: "matchChar c s = None \<longleftrightarrow> \<not> (s \<noteq> [] \<and> hd s = c)"
  by (cases s) auto

lemma datePattern_startsWithIsoDate: "datePattern s = startsWithIsoDate s"
proof (cases "10 \<le> length s")
  case False
  have "\<not> datePattern s"
    using False
    by (auto simp: datePattern_def matchDigits_Some matchChar_Some
        split: option.splits)
  moreover have "\<not> startsWithIsoDate s"
    using False by (simp add: startsWithIsoDate_def)
  ultimately show ?thesis by simp
next
  case True
  then have h: "hd (drop 4 s) = s ! 4" "hd (drop 7 s) = s ! 7"
    by (simp_all add: hd_drop_conv_nth)
  have t: "tl (drop 4 s) = drop 5 s" "tl (drop 7 s) = drop 8 s"
    by (simp_all add: tl_drop drop_Suc eval_nat_numeral)
  have n: "drop 4 s \<noteq> []" "drop 7 s \<noteq> []" "4 \<le> length s" "2 \<le> length s - 5"
    "2 \<le> length s - 8"
    using True by simp_all
  show ?thesis
    unfolding datePattern_def startsWithIsoDate_def
    using True
    by (auto simp add: matchDigits_Some matchDigits_None matchChar_Some matchChar_None h t n
        split: option.split)
qed

text \<open>
  C7. \<open>inferSqlType\<close> maps null and undefined to NVarChar(MAX), an integral number to Int, any
  other number to Decimal(18,2), a boolean to Bit, a Date object to DateTime, a string that
  starts with YYYY-MM-DD and parses as a valid date to DateTime, and any other string to
  NVarChar(255) when its length is at most 255, to NVarChar(4000) when its length is 256 to
  4000, and to NVarChar(MAX) when it is longer.
\<close>

theorem inferSqlType_table:
  "inferSqlType eng JNull = SqlNVarChar NVMax \<and>
   inferSqlType eng JUndefined = SqlNVarChar NVMax \<and>
   inferSqlType eng (JNumber n) = (if integralNumber n then SqlInt else SqlDecimal 18 2) \<and>
   inferSqlType eng (JBoolean b) = SqlBit \<and>
   inferSqlType eng (JDate d) = SqlDateTime \<and>
   inferSqlType eng (JString s) =
     (if startsWithIsoDate s \<and> dateParses eng s then SqlDateTime
      else if length s \<le> 255 then SqlNVarChar (Len 255)
      else if 256 \<le> length s \<and> length s \<le> 4000 then SqlNVarChar (Len 4000)
      else SqlNVarChar NVMax)"
  by (auto simp: isInteger_integral datePattern_startsWithIsoDate)

section \<open>Properties of the set-based insert\<close>

text \<open>
  C4. For every non-empty batch, \<open>bulkInsertWithTVP\<close> is all-or-nothing: whenever it returns
  normally it reports \<open>inserted\<close> equal to the number of records of the batch, \<open>failed = 0\<close> and
  an empty error list; when the bulk operation throws (any row error), the whole call throws
  and no result is reported.
\<close>

theorem bulkInsertWithTVP_all_or_nothing:
  assumes "records \<noteq> []"
  shows "(\<forall>r w'. bulkInsertWithTVP ext eng tname records cm w = (Inr r, w') \<longrightarrow>
            r = \<lparr> inserted = length records, failed = 0, errors = [] \<rparr>) \<and>
         (\<forall>e. fst (bulk ext (buildTable eng tname (hd records) records cm) w) = Inl e \<longrightarrow>
            isl (fst (bulkInsertWithTVP ext eng tname records cm w)))"
proof -
  from assms obtain r0 rs where recs: "records = r0 # rs" by (cases records) auto
  show ?thesis
    unfolding recs bulkInsertWithTVP_def
    by (auto split: sum.splits prod.splits)
qed

theorem bulkInsertWithTVP_all_or_nothing_witness:
  "bulkInsertWithTVP (calmWorld []) plainEngine ''SampleData'' [adaRecord, adaRecord] None 0
     = (Inr \<lparr> inserted = 2, failed = 0, errors = [] \<rparr>, 1) \<and>
   isl (fst (bulkInsertWithTVP stormWorld plainEngine ''SampleData'' [adaRecord, adaRecord] None 3))"
proof -
  have ne: "[adaRecord, adaRecord] \<noteq> []"
    by simp
  have "\<exists>r. bulkInsertWithTVP (calmWorld []) plainEngine ''SampleData''
      [adaRecord, adaRecord] None 0 = (Inr r, 1)"
    by (simp add: bulkInsertWithTVP_def getPool_def calmWorld_def scriptedWorld_def)
  then obtain r where r: "bulkInsertWithTVP (calmWorld []) plainEngine ''SampleData''
      [adaRecord, adaRecord] None 0 = (Inr r, 1)"
    by blast
  have thrown: "fst (bulk stormWorld
      (buildTable plainEngine ''SampleData'' (hd [adaRecord, adaRecord]) [adaRecord, adaRecord] None) 3)
      = Inl (Error ''Conversion failed'')"
    by (simp add: stormWorld_def scriptedWorld_def)
  from bulkInsertWithTVP_all_or_nothing [OF ne, of "calmWorld []" plainEngine "''SampleData''" None 0] r
  have "r = \<lparr> inserted = length [adaRecord, adaRecord], failed = 0, errors = [] \<rparr>" by blast
  then have a: "bulkInsertWithTVP (calmWorld []) plainEngine ''SampleData''
      [adaRecord, adaRecord] None 0 = (Inr \<lparr> inserted = 2, failed = 0, errors = [] \<rparr>, 1)"
    using r by simp
  from bulkInsertWithTVP_all_or_nothing [OF ne, of stormWorld plainEngine "''SampleData''" None 3] thrown
  have b: "isl (fst (bulkInsertWithTVP stormWorld plainEngine ''SampleData''
      [adaRecord, adaRecord] None 3))"
    by blast
  from a b show ?thesis by (rule conjI)
qed

section \<open>Properties of the arithmetic\<close>

text \<open>
  \<open>ilog2\<close> is the binary exponent, a value that does not exceed a small whole number is
  rounded to a double that does not exceed it either, nor is a value that reaches one
  rounded below it; so the percentage of a part of a whole is a whole number from 0 to
  100, and the percentage of a whole or more is 100 or more.
\<close>

lemma roundHalfEven_le: "x \<le> of_int n \<Longrightarrow> roundHalfEven x \<le> n"
proof -
  assume le: "x \<le> of_int n"
  then have f: "\<lfloor>x\<rfloor> \<le> n" by (simp add: floor_le_iff) 
  show ?thesis
  proof (cases "\<lfloor>x\<rfloor> = n")
    case True
    then have "x - of_int \<lfloor>x\<rfloor> \<le> 0" using le by simp
    then have "x - of_int \<lfloor>x\<rfloor> < 1 / 2" by simp
    then show ?thesis using True by (simp add: roundHalfEven_def Let_def)
  next
    case False
    with f have "\<lfloor>x\<rfloor> + 1 \<le> n" by simp
    then show ?thesis using f by (simp add: roundHalfEven_def Let_def)
  qed
qed

lemma roundHalfEven_nonneg: "0 \<le> x \<Longrightarrow> 0 \<le> roundHalfEven x"
  by (simp add: roundHalfEven_def Let_def)

lemma ilog2_lower:
  assumes "0 < x"
  shows "2 powi (ilog2 x) \<le> x"
proof -
  obtain n d where q: "quotient_of x = (n, d)" by (cases "quotient_of x")
  then have d: "0 < d" and x: "x = of_int n / of_int d"
    using quotient_of_denom_pos quotient_of_div by blast+
  from assms x d have n: "0 < n" by (simp add: zero_less_divide_iff)
  let ?k = "bitlen n - bitlen d"
  show ?thesis
  proof (cases "2 powi ?k \<le> x")
    case True
    then show ?thesis by (simp add: ilog2_def q Let_def)
  next
    case False
    then have e: "ilog2 x = ?k - 1" by (simp add: ilog2_def q Let_def)
    have bn: "1 \<le> bitlen n" using n by (simp add: bitlen_alt_def)
    have bd: "0 \<le> bitlen d" by (rule bitlen_nonneg)
    have nlow: "(2::rat) ^ nat (bitlen n - 1) \<le> of_int n"
    proof -
      have "(2::int) ^ nat (bitlen n - 1) \<le> n" using bitlen_bounds [OF n] by blast
      then have "rat_of_int (2 ^ nat (bitlen n - 1)) \<le> of_int n" by (rule of_int_le_iff [THEN iffD2])
      then show ?thesis by simp
    qed
    have dup: "of_int d \<le> (2::rat) ^ nat (bitlen d)"
    proof -
      have "d < (2::int) ^ nat (bitlen d)" using bitlen_bounds [OF d] by blast
      then have "rat_of_int d < of_int (2 ^ nat (bitlen d))" by (rule of_int_less_iff [THEN iffD2])
      then show ?thesis by simp
    qed
    have "(2::rat) powi (?k - 1) = 2 powi (bitlen n - 1) / 2 powi (bitlen d)"
      by (simp add: power_int_diff)
    also have "\<dots> = 2 ^ nat (bitlen n - 1) / 2 ^ nat (bitlen d)"
      using bn bd by (simp add: power_int_def)
    also have "\<dots> \<le> of_int n / of_int d"
      using nlow dup d n by (intro frac_le) simp_all
    finally show ?thesis using e x by simp
  qed
qed

lemma ilog2_upper:
  assumes "0 < x"
  shows "x < 2 powi (ilog2 x + 1)"
proof -
  obtain n d where q: "quotient_of x = (n, d)" by (cases "quotient_of x")
  then have d: "0 < d" and x: "x = of_int n / of_int d"
    using quotient_of_denom_pos quotient_of_div by blast+
  from assms x d have n: "0 < n" by (simp add: zero_less_divide_iff)
  let ?k = "bitlen n - bitlen d"
  show ?thesis
  proof (cases "2 powi ?k \<le> x")
    case False
    then show ?thesis by (simp add: ilog2_def q Let_def)
  next
    case True
    then have e: "ilog2 x = ?k" by (simp add: ilog2_def q Let_def)
    have bn: "0 \<le> bitlen n" by (rule bitlen_nonneg)
    have bd: "1 \<le> bitlen d" using d by (simp add: bitlen_alt_def)
    have nup: "of_int n < (2::rat) ^ nat (bitlen n)"
    proof -
      have "n < (2::int) ^ nat (bitlen n)" using bitlen_bounds [OF n] by blast
      then have "rat_of_int n < of_int (2 ^ nat (bitlen n))" by (rule of_int_less_iff [THEN iffD2])
      then show ?thesis by simp
    qed
    have dlow: "(2::rat) ^ nat (bitlen d - 1) \<le> of_int d"
    proof -
      have "(2::int) ^ nat (bitlen d - 1) \<le> d" using bitlen_bounds [OF d] by blast
      then have "rat_of_int (2 ^ nat (bitlen d - 1)) \<le> of_int d" by (rule of_int_le_iff [THEN iffD2])
      then show ?thesis by simp
    qed
    have "of_int n / of_int d < (2::rat) ^ nat (bitlen n) / 2 ^ nat (bitlen d - 1)"
      using nup dlow d n by (intro frac_less) simp_all
    also have "\<dots> = 2 powi (bitlen n) / 2 powi (bitlen d - 1)"
      using bn bd by (simp add: power_int_def)
    also have "\<dots> = 2 powi (bitlen n - (bitlen d - 1))"
      by (rule power_int_diff [symmetric]) simp
    also have "bitlen n - (bitlen d - 1) = ?k + 1"
      by simp
    finally show ?thesis using e x by simp
  qed
qed

lemma roundToDouble_bounded:
  assumes "0 < x" and "x \<le> of_nat c" and "c \<le> 2 ^ 52"
  shows "\<exists>y. roundToDouble x = Num y \<and> 0 \<le> y \<and> y \<le> of_nat c"
proof -
  define e where "e = max (ilog2 x) (- 1022)"
  define s :: rat where "s = 2 ^ nat (52 - e)"
  define m where "m = roundHalfEven (x * s)"
  have "(2::rat) powi (ilog2 x) \<le> 2 powi 52"
  proof -
    have "(2::rat) powi (ilog2 x) \<le> x" by (rule ilog2_lower [OF assms(1)])
    also have "\<dots> \<le> of_nat c" by (rule assms(2))
    also have "\<dots> \<le> of_nat (2 ^ 52)" using assms(3) by (rule of_nat_mono)
    finally show ?thesis by simp
  qed
  then have "ilog2 x \<le> 52" by (rule power_int_le_imp_le_exp [rotated]) simp_all
  then have e52: "e \<le> 52" by (simp add: e_def)
  then have up: "(2::rat) powi (52 - e) = s" by (simp add: s_def power_int_def)
  have down: "(2::rat) powi (e - 52) = 1 / s"
  proof -
    have "(2::rat) powi (e - 52) = 2 powi (- (52 - e))" by simp
    also have "\<dots> = inverse (2 powi (52 - e))" by (rule power_int_minus)
    finally show ?thesis using up by (simp add: divide_inverse)
  qed
  have spos: "0 < s" by (simp add: s_def)
  have "x * s \<le> of_nat c * s" using assms(2) spos by simp
  also have "of_nat c * s = of_int (int c * 2 ^ nat (52 - e))" by (simp add: s_def)
  finally have "m \<le> int c * 2 ^ nat (52 - e)" unfolding m_def by (rule roundHalfEven_le)
  then have "rat_of_int m \<le> of_int (int c * 2 ^ nat (52 - e))" by (rule of_int_le_iff [THEN iffD2])
  then have mle: "of_int m \<le> of_nat c * s" by (simp add: s_def)
  have "0 \<le> x * s" using assms(1) spos by simp
  then have mge: "0 \<le> m" unfolding m_def by (rule roundHalfEven_nonneg)
  define y where "y = of_int m / s"
  have yle: "y \<le> of_nat c" using mle spos by (simp add: y_def pos_divide_le_eq)
  have yge: "0 \<le> y" using mge spos by (simp add: y_def)
  have "y \<le> of_nat (2 ^ 52)" using yle assms(3) by (meson of_nat_mono order_trans)
  then have "y \<le> 2 ^ 52" by simp
  also have "(2::rat) ^ 52 < 2 ^ 1024" by simp
  finally have nov: "\<not> 2 powi 1024 \<le> y" by (simp add: power_int_def)
  have "roundToDouble x = Num y"
    using assms(1) nov
    unfolding roundToDouble_def Let_def e_def [symmetric] 
    by (simp add: up down m_def [symmetric] y_def [symmetric] e_def [symmetric])
  with yle yge show ?thesis by blast
qed

lemma percentageOf_le_100:
  assumes "0 < p" and "p \<le> t"
  shows "\<exists>k. percentageOf p t = Num (of_int k) \<and> 0 \<le> k \<and> k \<le> 100"
proof -
  have t: "0 < t" using assms by simp
  have q: "0 < (of_nat p / of_nat t :: rat)" using assms t by simp
  have q1: "(of_nat p / of_nat t :: rat) \<le> of_nat 1" using assms t by simp
  obtain y where y: "roundToDouble (of_nat p / of_nat t) = Num y" "0 \<le> y" "y \<le> 1"
    using roundToDouble_bounded [OF q q1] by auto
  have "\<exists>z. roundToDouble (y * 100) = Num z \<and> 0 \<le> z \<and> z \<le> 100"
  proof (cases "y = 0")
    case True
    then show ?thesis by (simp add: roundToDouble_def)
  next
    case False
    with y have "0 < y * 100" by simp
    moreover have "y * 100 \<le> of_nat 100" using y by simp
    ultimately show ?thesis using roundToDouble_bounded [of "y * 100" 100] by simp
  qed
  then obtain z where z: "roundToDouble (y * 100) = Num z" "0 \<le> z" "z \<le> 100" by blast
  have "percentageOf p t = Num (of_int \<lfloor>z + 1 / 2\<rfloor>)"
    using t y z by (simp add: percentageOf_def)
  moreover have "0 \<le> \<lfloor>z + 1 / 2\<rfloor>" using z by simp
  moreover have "\<lfloor>z + 1 / 2\<rfloor> \<le> 100"
  proof -
    have "z + 1 / 2 < 101" using z by simp
    then have "\<lfloor>z + 1 / 2\<rfloor> < 101" by (simp add: floor_less_iff)
    then show ?thesis by simp
  qed
  ultimately show ?thesis by blast
qed

lemma roundHalfEven_ge: "of_int n \<le> x \<Longrightarrow> n \<le> roundHalfEven x"
proof -
  assume "of_int n \<le> x"
  then have "n \<le> \<lfloor>x\<rfloor>" by (simp add: le_floor_iff)
  then show ?thesis by (simp add: roundHalfEven_def Let_def)
qed

lemma ilog2_nonneg:
  assumes "1 \<le> x"
  shows "0 \<le> ilog2 x"
proof (rule ccontr)
  assume "\<not> 0 \<le> ilog2 x"
  then have "ilog2 x + 1 \<le> 0" by simp
  then have "(2::rat) powi (ilog2 x + 1) \<le> 2 powi 0"
    by (rule power_int_increasing) simp
  moreover have "x < 2 powi (ilog2 x + 1)"
    using assms by (intro ilog2_upper) simp
  ultimately show False using assms by simp
qed

lemma roundToDouble_lower:
  assumes c: "0 < c" and le: "of_nat c \<le> x" and small: "c \<le> 2 ^ 52"
  shows "roundToDouble x = PosInfinity \<or> (\<exists>y. roundToDouble x = Num y \<and> of_nat c \<le> y)"
proof -
  have x1: "1 \<le> x"
  proof -
    have "(1::rat) \<le> of_nat c" using c by simp
    then show ?thesis using le by simp
  qed
  then have pos: "0 < x" by simp
  define e where "e = max (ilog2 x) (- 1022)"
  have e0: "0 \<le> e" using ilog2_nonneg [OF x1] by (simp add: e_def)
  have ee: "e = ilog2 x" using ilog2_nonneg [OF x1] by (simp add: e_def)
  define m where "m = roundHalfEven (x * 2 powi (52 - e))"
  define y where "y = of_int m * (2::rat) powi (e - 52)"
  have cy: "of_nat c \<le> y"
  proof (cases "e \<le> 52")
    case True
    define s :: rat where "s = 2 ^ nat (52 - e)"
    have up: "(2::rat) powi (52 - e) = s" using True by (simp add: s_def power_int_def)
    have down: "(2::rat) powi (e - 52) = 1 / s"
    proof -
      have "(2::rat) powi (e - 52) = 2 powi (- (52 - e))" by simp
      also have "\<dots> = inverse (2 powi (52 - e))" by (rule power_int_minus)
      finally show ?thesis using up by (simp add: divide_inverse)
    qed
    have spos: "0 < s" by (simp add: s_def)
    have "of_int (int c * 2 ^ nat (52 - e)) = of_nat c * s" by (simp add: s_def)
    also have "\<dots> \<le> x * s" using le spos by simp
    finally have "int c * 2 ^ nat (52 - e) \<le> m" unfolding m_def up by (rule roundHalfEven_ge)
    then have "rat_of_int (int c * 2 ^ nat (52 - e)) \<le> of_int m" by (rule of_int_le_iff [THEN iffD2])
    then have "of_nat c * s \<le> of_int m" by (simp add: s_def)
    then show ?thesis using spos by (simp add: y_def down pos_le_divide_eq)
  next
    case False
    then have big: "0 \<le> e - 52" by simp
    have lo: "(2::rat) powi e \<le> x" unfolding ee by (rule ilog2_lower [OF pos])
    have "(2::rat) powi 52 = 2 powi e * 2 powi (52 - e)"
      by (simp add: power_int_add [symmetric])
    also have "\<dots> \<le> x * 2 powi (52 - e)"
      using lo by (intro mult_right_mono) simp_all
    finally have "of_int (2 ^ 52) \<le> x * (2::rat) powi (52 - e)" by simp
    then have "2 ^ 52 \<le> m" unfolding m_def by (rule roundHalfEven_ge)
    then have m52: "(2::rat) ^ 52 \<le> of_int m"
      by (metis of_int_le_iff of_int_numeral of_int_power)
    have one: "(1::rat) \<le> 2 powi (e - 52)" using big by simp
    have "of_nat c \<le> (2::rat) ^ 52"
    proof -
      have "(of_nat c :: rat) \<le> of_nat (2 ^ 52)" using small by (rule of_nat_mono)
      then show ?thesis by simp
    qed
    also have "\<dots> = 2 ^ 52 * 1" by simp
    also have "\<dots> \<le> of_int m * 2 powi (e - 52)"
      using m52 one by (intro mult_mono) simp_all
    finally show ?thesis by (simp add: y_def)
  qed
  have ax: "\<bar>x\<bar> = x" "sgn x = 1" "(x = 0) = False" "(0 < x) = True"
    using pos by simp_all
  have "roundToDouble x = (if 2 powi 1024 \<le> y then PosInfinity else Num y)"
    unfolding roundToDouble_def Let_def ax
    unfolding e_def [symmetric] m_def [symmetric]
    unfolding y_def [symmetric]
    by simp
  then show ?thesis using cy by auto
qed

lemma percentageOf_ge_100:
  assumes "0 < p" and "t \<le> p"
  shows "percentageOf p t = PosInfinity \<or>
         (\<exists>k. percentageOf p t = Num (of_int k) \<and> 100 \<le> k)"
proof (cases "t = 0")
  case True
  then show ?thesis using assms by (simp add: percentageOf_def)
next
  case False
  then have t: "0 < t" by simp
  have q1: "(of_nat 1 :: rat) \<le> of_nat p / of_nat t" using assms t by (simp add: le_divide_eq)
  from roundToDouble_lower [OF _ q1] consider
    "roundToDouble (of_nat p / of_nat t) = PosInfinity"
    | y where "roundToDouble (of_nat p / of_nat t) = Num y" "1 \<le> y"
    by auto
  then show ?thesis
  proof cases
    case 1
    then show ?thesis using t by (simp add: percentageOf_def)
  next
    case 2
    have "(of_nat 100 :: rat) \<le> y * 100" using 2(2) by simp
    from roundToDouble_lower [OF _ this] consider
      "roundToDouble (y * 100) = PosInfinity"
      | z where "roundToDouble (y * 100) = Num z" "100 \<le> z"
      by auto
    then show ?thesis
    proof cases
      case 1
      then show ?thesis using t 2(1) by (simp add: percentageOf_def)
    next
      case z: 2
      have "(100::int) \<le> \<lfloor>z + 1 / 2\<rfloor>" using z(2) by (simp add: le_floor_iff)
      then show ?thesis using t 2(1) z(1) by (simp add: percentageOf_def)
    qed
  qed
qed

section \<open>Properties of the stream reader\<close>

lemma yieldBatches_step:
  "i < length xs \<Longrightarrow>
   yieldBatches xs i = slice xs i (i + batchSize) # yieldBatches xs (i + batchSize)"
  by (subst yieldBatches.simps) simp

lemma yieldBatches_stop: "\<not> i < length xs \<Longrightarrow> yieldBatches xs i = []"
  by (subst yieldBatches.simps) simp

lemma yieldBatches_concat: "concat (yieldBatches xs i) = drop i xs"
proof (induction xs i rule: yieldBatches.induct)
  case (1 batch i)
  show ?case
  proof (cases "i < length batch")
    case True
    have "concat (yieldBatches batch i) = slice batch i (i + batchSize) @ drop (i + batchSize) batch"
      using True 1 by (simp add: yieldBatches_step)
    also have "\<dots> = take batchSize (drop i batch) @ drop batchSize (drop i batch)"
      by (simp add: slice_def add.commute)
    also have "\<dots> = drop i batch" by (rule append_take_drop_id)
    finally show ?thesis .
  next
    case False
    then show ?thesis by (simp add: yieldBatches_stop)
  qed
qed

lemma yieldBatches_sizes:
  "\<forall>b \<in> set (yieldBatches xs i). 0 < length b \<and> length b \<le> batchSize"
proof (induction xs i rule: yieldBatches.induct)
  case (1 batch i)
  show ?case
  proof (cases "i < length batch")
    case True
    have "0 < length (slice batch i (i + batchSize))"
      using True by (simp add: slice_def batchSize_def)
    moreover have "length (slice batch i (i + batchSize)) \<le> batchSize"
      by (simp add: slice_def)
    ultimately show ?thesis using 1 True by (simp add: yieldBatches_step)
  next
    case False
    then show ?thesis by (simp add: yieldBatches_stop)
  qed
qed

lemma yieldBatches_full:
  "\<forall>b \<in> set (butlast (yieldBatches xs i)). length b = batchSize"
proof (induction xs i rule: yieldBatches.induct)
  case (1 batch i)
  show ?case
  proof (cases "i < length batch")
    case True
    show ?thesis
    proof (cases "i + batchSize < length batch")
      case more: True
      have "yieldBatches batch (i + batchSize) \<noteq> []"
        using more by (simp add: yieldBatches_step [of "i + batchSize"])
      moreover have "length (slice batch i (i + batchSize)) = batchSize"
        using more by (simp add: slice_def)
      ultimately show ?thesis using 1 True by (simp add: yieldBatches_step [of i])
    next
      case False
      then have "yieldBatches batch (i + batchSize) = []"
        by (simp add: yieldBatches_stop)
      then show ?thesis using True by (simp add: yieldBatches_step [of i])
    qed
  next
    case False
    then show ?thesis by (simp add: yieldBatches_stop)
  qed
qed

lemma getCellValue_data_type:
  "getCellValue eng c \<noteq> JNull \<Longrightarrow> cellType c \<noteq> TNull"
  by (cases c; cases "cellValue c") (auto simp: getCellValue_def)

lemma cellHasData_hasValues: "list_ex (cellHasData eng) r \<Longrightarrow> hasValues r"
  unfolding hasValues_def list_ex_iff cellHasData_def
  by (auto split: option.splits dest: getCellValue_data_type)

lemma rowAdmitted_hasValues: "rowAdmitted eng headers r \<Longrightarrow> hasValues r"
proof -
  assume "rowAdmitted eng headers r"
  then obtain i c where "(i, c) \<in> set (enumerate 0 r)" "cellHasData eng c"
    unfolding rowAdmitted_def list_ex_iff by auto
  then have "c \<in> set r" by (auto simp: in_set_enumerate_eq)
  with \<open>cellHasData eng c\<close> have "list_ex (cellHasData eng) r"
    unfolding list_ex_iff by blast
  then show ?thesis by (rule cellHasData_hasValues)
qed

lemma cellCallback_snd:
  "snd (cellCallback eng headers (r, b) (cl, Suc k)) =
     (b \<or> (headed headers k \<and> cellHasData eng (Some cl)))"
  by (simp add: cellCallback_def headed_def cellHasData_def Let_def split: option.splits)

lemma cellCallback_hasData:
  "snd (foldl (cellCallback eng headers) (r, b) (eachCellIncludeEmpty k cs)) =
     (b \<or> list_ex (\<lambda>(i, c). headed headers i \<and> cellHasData eng c) (enumerate k cs))"
proof (induction cs arbitrary: r b k)
  case Nil
  show ?case by simp
next
  case (Cons c cs)
  show ?case
  proof (cases c)
    case None
    obtain r' b' where step: "cellCallback eng headers (r, b) (Cell JNull, Suc k) = (r', b')"
      by (cases "cellCallback eng headers (r, b) (Cell JNull, Suc k)")
    have "b' = (b \<or> (headed headers k \<and> cellHasData eng (Some (Cell JNull))))"
      using cellCallback_snd [of eng headers r b "Cell JNull" k] step by simp
    then have "b' = b" by (simp add: cellHasData_def getCellValue_def)
    then show ?thesis
      using None step Cons.IH [of r' b "Suc k"] by (simp add: cellHasData_def)
  next
    case (Some cl)
    obtain r' b' where step: "cellCallback eng headers (r, b) (cl, Suc k) = (r', b')"
      by (cases "cellCallback eng headers (r, b) (cl, Suc k)")
    have b': "b' = (b \<or> (headed headers k \<and> cellHasData eng (Some cl)))"
      using cellCallback_snd [of eng headers r b cl k] step by simp
    show ?thesis
      using Some step Cons.IH [of r' b' "Suc k"] by (auto simp: b')
  qed
qed

lemma rowCallback_admitted:
  "rowCallback eng headers skipRows batch (r, n) =
     (if n \<le> 1 + skipRows then batch
      else if rowAdmitted eng headers r then batch @ [rowRecord eng headers r] else batch)"
  by (simp add: rowCallback_def Let_def cellCallback_hasData rowAdmitted_def rowRecord_def)

lemma collect_eachRow:
  "foldl (rowCallback eng headers skipRows) acc (eachRow k rs) =
     acc @ map (rowRecord eng headers)
             (filter (rowAdmitted eng headers) (List.map_filter id (drop (1 + skipRows - k) rs)))"
proof (induction rs arbitrary: k acc)
  case Nil
  show ?case by (simp add: List.map_filter_simps)
next
  case (Cons r rs)
  have d: "1 + skipRows - Suc k = (1 + skipRows - k) - 1" by simp
  show ?case
  proof (cases "1 + skipRows - k")
    case 0
    then have k: "\<not> Suc k \<le> 1 + skipRows" "1 + skipRows - Suc k = 0" by simp_all
    show ?thesis
    proof (cases r)
      case None
      then show ?thesis using 0 k Cons.IH [where k = "Suc k" and acc = acc] by (simp add: List.map_filter_simps)
    next
      case (Some rw)
      show ?thesis
      proof (cases "hasValues rw")
        case True
        then show ?thesis
          using Some 0 k Cons.IH [where k = "Suc k"]
          by (simp add: List.map_filter_simps rowCallback_admitted)
      next
        case False
        then have "\<not> rowAdmitted eng headers rw" using rowAdmitted_hasValues by blast
        then show ?thesis
          using Some False 0 k Cons.IH [where k = "Suc k" and acc = acc]
          by (simp add: List.map_filter_simps)
      qed
    qed
  next
    case (Suc m)
    then have k: "Suc k \<le> 1 + skipRows" "1 + skipRows - Suc k = m" by simp_all
    show ?thesis
      using Suc k Cons.IH [where k = "Suc k" and acc = acc]
      by (cases r) (simp_all add: rowCallback_admitted)
  qed
qed

lemma getRow_rowsAfter:
  "drop (Suc r) (wsRows (snd (getRow ws (Suc r)))) = drop (Suc r) (wsRows ws)"
  by (auto simp: getRow_def jsArrayGet_def jsArraySet_def drop_update_cancel
      split: option.splits if_splits)

lemma collectRows_eq:
  "collectRows eng ws skipRows =
     map (rowRecord eng (headersOf eng ws skipRows))
       (filter (rowAdmitted eng (headersOf eng ws skipRows)) (rowsAfterHeader ws skipRows))"
proof -
  obtain headerRow ws1 where g: "getRow ws (1 + skipRows) = (headerRow, ws1)"
    by (cases "getRow ws (1 + skipRows)")
  have "drop (1 + skipRows) (wsRows ws1) = drop (1 + skipRows) (wsRows ws)"
    using getRow_rowsAfter [of skipRows ws] g by simp
  then show ?thesis
    using g collect_eachRow [of eng "readHeaders eng headerRow" skipRows "[]" 0 "wsRows ws1"]
    by (simp add: collectRows_def headersOf_def rowsAfterHeader_def)
qed

text \<open>
  C6, as amended. Whenever \<open>streamExcelRows\<close> yields batches, their concatenation is, in
  file order, the records of the rows below the header row that have at least one cell,
  in a column whose header is not blank, coercing to a value that is neither null nor the
  empty string; every batch but the last has exactly 500 records and the last has between
  1 and 500.
\<close>

theorem streamExcelRows_batches:
  assumes "streamExcelRows ext eng filePath sheetName skipRows w = (Inr batches, w')"
  shows "\<exists>wb ws. readFile ext filePath w = (Inr wb, w') \<and> selectWorksheet wb sheetName = Some ws \<and>
           concat batches =
             map (rowRecord eng (headersOf eng ws skipRows))
               (filter (rowAdmitted eng (headersOf eng ws skipRows)) (rowsAfterHeader ws skipRows)) \<and>
           (\<forall>b \<in> set batches. 0 < length b \<and> length b \<le> 500) \<and>
           (\<forall>b \<in> set (butlast batches). length b = 500)"
proof -
  from assms obtain wb ws where rd: "readFile ext filePath w = (Inr wb, w')"
    and sel: "selectWorksheet wb sheetName = Some ws"
    and b: "batches = yieldBatches (collectRows eng ws skipRows) 0"
    by (auto simp: streamExcelRows_def split: prod.splits sum.splits option.splits)
  have "concat batches = collectRows eng ws skipRows"
    by (simp add: b yieldBatches_concat)
  moreover have "\<forall>b \<in> set batches. 0 < length b \<and> length b \<le> 500"
    using yieldBatches_sizes [of "collectRows eng ws skipRows" 0] by (simp add: b batchSize_def)
  moreover have "\<forall>b \<in> set (butlast batches). length b = 500"
    using yieldBatches_full [of "collectRows eng ws skipRows" 0] by (simp add: b batchSize_def)
  ultimately show ?thesis using rd sel by (simp add: collectRows_eq)
qed

theorem streamExcelRows_batches_witness:
  "map (rowRecord plainEngine (headersOf plainEngine (nameSheet 2) 0))
     (filter (rowAdmitted plainEngine (headersOf plainEngine (nameSheet 2) 0))
        (rowsAfterHeader (nameSheet 2) 0))
   = [[(''Name'', JString ''Ada'')], [(''Name'', JString ''Ada'')]]"
proof -
  have run: "streamExcelRows (calmWorld [nameSheet 2]) plainEngine ''f.xlsx'' None 0 0
      = (Inr [[[(''Name'', JString ''Ada'')], [(''Name'', JString ''Ada'')]]], 1)"
    by code_simp
  have rd: "readFile (calmWorld [nameSheet 2]) ''f.xlsx'' 0 = (Inr [nameSheet 2], 1)"
    by (simp add: calmWorld_def scriptedWorld_def)
  from streamExcelRows_batches [OF run] rd show ?thesis
    by (auto simp: selectWorksheet_def)
qed

text \<open>
  C6 as stated fails: a row whose only value stands in a column without a header has a
  cell coercing to a non-empty value, and no batch holds it.
\<close>

theorem streamExcelRows_orphan_counterexample:
  "fst (streamExcelRows (calmWorld [orphanSheet]) plainEngine ''f.xlsx'' None 0 0) = Inr [] \<and>
   filter (rowHasValue plainEngine) (rowsAfterHeader orphanSheet 0)
     = [[None, Some (Cell (JString ''x''))]]"
  by code_simp

section \<open>Properties of validation\<close>

lemma lastRowNumber_snoc_Some: "lastRowNumber (rs @ [Some r]) = Suc (length rs)"
  by (simp add: lastRowNumber_def)

lemma lastRowNumber_snoc_None: "lastRowNumber (rs @ [None]) = lastRowNumber rs"
  by (simp add: lastRowNumber_def)











section \<open>Properties of the table check\<close>

lemma tableExists_query_raises:
  assumes "poolConnected ext w" and "fst (countTablesQuery ext tname w) = Inl e"
  shows "tableExists ext tname w = (Inr False, snd (countTablesQuery ext tname w))"
  using assms by (cases "countTablesQuery ext tname w") (simp add: tableExists_def getPool_def)

lemma tableExists_absent:
  assumes "poolConnected ext w"
  shows "tableExists (tableAbsent ext) tname w = (Inr False, snd (countTablesQuery ext tname w))"
  using assms by (simp add: tableExists_def getPool_def tableAbsent_def)

lemma validateExcel_tableAbsent:
  "validateExcel (tableAbsent ext) eng filePath req sheetName skipRows w =
   validateExcel ext eng filePath req sheetName skipRows w"
  by (simp add: validateExcel_def tableAbsent_def)

lemma validateImport_table_missing:
  assumes "tableExists ext tname w = (Inr False, w1)"
  shows "validateImport ext eng filePath tname sheetName skipRows w =
     (case validateExcel ext eng filePath [] sheetName skipRows w1 of
        (validation, w3) \<Rightarrow>
          (\<lparr> iIsValid = False,
             iErrors = (if \<not> isValid validation
                        then tableMissing tname # map message (verrors validation)
                        else [tableMissing tname]),
             iRowCount = rowCount validation \<rparr>, w3))"
  using assms by (simp add: validateImport_def Let_def split: prod.splits)

text \<open>
  C10. If the pool is connected and the table-count query throws, \<open>tableExists\<close> returns
  \<open>false\<close>; \<open>processImport\<close> then fails with "Table ... does not exist" and
  \<open>validateImport\<close> records that message; and both return exactly what they return in
  the world where the query answers that no such table exists.
\<close>

theorem tableExists_swallows_query_error:
  assumes "poolConnected ext w" and "fst (countTablesQuery ext tname w) = Inl e"
  shows "fst (tableExists ext tname w) = Inr False \<and>
         fst (processImport ext eng filePath tname sheetName columnMapping skipRows w)
           = Inl (Error (tableMissing tname)) \<and>
         tableMissing tname
           \<in> set (iErrors (fst (validateImport ext eng filePath tname sheetName skipRows w))) \<and>
         processImport ext eng filePath tname sheetName columnMapping skipRows w
           = processImport (tableAbsent ext) eng filePath tname sheetName columnMapping skipRows w \<and>
         validateImport ext eng filePath tname sheetName skipRows w
           = validateImport (tableAbsent ext) eng filePath tname sheetName skipRows w"
proof -
  let ?w1 = "snd (countTablesQuery ext tname w)"
  have t: "tableExists ext tname w = (Inr False, ?w1)"
    using assms by (rule tableExists_query_raises)
  have t': "tableExists (tableAbsent ext) tname w = (Inr False, ?w1)"
    using assms(1) by (rule tableExists_absent)
  have p: "processImport ext eng filePath tname sheetName columnMapping skipRows w
      = (Inl (Error (tableMissing tname)), ?w1)"
    using t by (simp add: processImport_def)
  have p': "processImport (tableAbsent ext) eng filePath tname sheetName columnMapping skipRows w
      = (Inl (Error (tableMissing tname)), ?w1)"
    using t' by (simp add: processImport_def)
  have v: "validateImport ext eng filePath tname sheetName skipRows w
      = validateImport (tableAbsent ext) eng filePath tname sheetName skipRows w"
    by (simp add: validateImport_table_missing [OF t] validateImport_table_missing [OF t']
        validateExcel_tableAbsent)
  have m: "tableMissing tname
      \<in> set (iErrors (fst (validateImport ext eng filePath tname sheetName skipRows w)))"
    by (simp add: validateImport_table_missing [OF t] split: prod.splits)
  show ?thesis using t p p' v m by simp
qed

theorem tableExists_swallows_query_error_witness:
  "fst (tableExists outageWorld ''SampleData'' 0) = Inr False \<and>
   fst (processImport outageWorld plainEngine ''f.xlsx'' ''SampleData'' None None 0 0)
     = Inl (Error ''Table SampleData does not exist'') \<and>
   ''Table SampleData does not exist''
     \<in> set (iErrors (fst (validateImport outageWorld plainEngine ''f.xlsx'' ''SampleData'' None 0 0)))"
proof -
  have c: "poolConnected outageWorld 0"
    by (simp add: outageWorld_def scriptedWorld_def)
  have q: "fst (countTablesQuery outageWorld ''SampleData'' 0) = Inl (Error ''Connection lost'')"
    by (simp add: outageWorld_def scriptedWorld_def)
  have tm: "tableMissing ''SampleData'' = ''Table SampleData does not exist''"
    by (simp add: tableMissing_def)
  note swallowed = tableExists_swallows_query_error [OF c q, of plainEngine "''f.xlsx''" None None 0]
  from swallowed [unfolded tm] show ?thesis by blast
qed

section \<open>Properties of the import\<close>

lemma tableExists_bulk: "tableExists (ext\<lparr>bulk := b\<rparr>) tname w = tableExists ext tname w"
  by (simp add: tableExists_def getPool_def)

lemma getRowCount_bulk:
  "getRowCount (ext\<lparr>bulk := b\<rparr>) filePath sheetName skipRows w =
   getRowCount ext filePath sheetName skipRows w"
  by (simp add: getRowCount_def)

lemma streamExcelRows_bulk:
  "streamExcelRows (ext\<lparr>bulk := b\<rparr>) eng filePath sheetName skipRows w =
   streamExcelRows ext eng filePath sheetName skipRows w"
  by (simp add: streamExcelRows_def)

lemma processImport_isl_preflight:
  "isl (fst (processImport ext eng filePath tname sheetName columnMapping skipRows w)) =
   preflightFails ext eng filePath tname sheetName skipRows w"
  by (auto simp: processImport_def preflightFails_def split: prod.splits sum.splits)

lemma preflightFails_bulk:
  "preflightFails (ext\<lparr>bulk := b\<rparr>) eng filePath tname sheetName skipRows w =
   preflightFails ext eng filePath tname sheetName skipRows w"
  by (simp add: preflightFails_def tableExists_bulk getRowCount_bulk streamExcelRows_bulk)

lemma processImport_raise_bulk:
  assumes "isl (fst (processImport ext eng filePath tname sheetName columnMapping skipRows w))"
  shows "processImport (ext\<lparr>bulk := b\<rparr>) eng filePath tname sheetName columnMapping skipRows w =
         processImport ext eng filePath tname sheetName columnMapping skipRows w"
  using assms
  by (auto simp: processImport_def tableExists_bulk getRowCount_bulk streamExcelRows_bulk
      split: prod.splits sum.splits)

lemma stream_raises_stable:
  assumes "\<forall>v v'. fst (readFile ext filePath v) = fst (readFile ext filePath v')"
  shows "isl (fst (streamExcelRows ext eng filePath sheetName skipRows w2)) =
         isl (fst (getRowCount ext filePath sheetName skipRows w1))"
proof -
  have "fst (readFile ext filePath w2) = fst (readFile ext filePath w1)"
    using assms by blast
  then show ?thesis
    by (cases "readFile ext filePath w1"; cases "readFile ext filePath w2")
       (auto simp: streamExcelRows_def getRowCount_def split: sum.splits option.splits)
qed

lemma processImport_isl_stable:
  assumes "\<forall>v v'. fst (readFile ext filePath v) = fst (readFile ext filePath v')"
  shows "isl (fst (processImport ext eng filePath tname sheetName columnMapping skipRows w)) =
      (fst (tableExists ext tname w) \<noteq> Inr True \<or>
       isl (fst (getRowCount ext filePath sheetName skipRows (snd (tableExists ext tname w)))))"
proof -
  obtain r1 w1 where t: "tableExists ext tname w = (r1, w1)" by (cases "tableExists ext tname w")
  obtain r2 w2 where g: "getRowCount ext filePath sheetName skipRows w1 = (r2, w2)"
    by (cases "getRowCount ext filePath sheetName skipRows w1")
  have "isl (fst (streamExcelRows ext eng filePath sheetName skipRows w2)) = isl r2"
    using stream_raises_stable [OF assms, of eng sheetName skipRows w2 w1] g by simp
  then show ?thesis
    using t g by (simp add: processImport_isl_preflight preflightFails_def)
qed

lemma batchStep_caught:
  assumes "fst (bulkInsertWithTVP ext eng tname batch columnMapping w) = Inl e"
  shows "batchStep ext eng tname columnMapping totalRecords st batch w =
         (st\<lparr> failedCount := failedCount st + length batch \<rparr>,
          snd (bulkInsertWithTVP ext eng tname batch columnMapping w))"
  using assms
  by (cases "bulkInsertWithTVP ext eng tname batch columnMapping w") (simp add: batchStep_def)

text \<open>
  C3, as amended. \<open>processImport\<close> throws if and only if the table check, the row
  count or the stream reader's own opening of the file (its read, or its worksheet
  lookup) fails. All three come before the first batch: a call that throws returns the
  same whatever \<open>request.bulk\<close> would do. A batch whose insert throws is caught, its
  row count is added to \<open>failedCount\<close>, and the loop goes on with the next batch. When
  every read of the file gives the same result, the stream reader fails only if the row
  count has failed before.
\<close>

theorem processImport_raises:
  "(isl (fst (processImport ext eng filePath tname sheetName columnMapping skipRows w)) =
      preflightFails ext eng filePath tname sheetName skipRows w) \<and>
   ((\<forall>v v'. fst (readFile ext filePath v) = fst (readFile ext filePath v')) \<longrightarrow>
      isl (fst (processImport ext eng filePath tname sheetName columnMapping skipRows w)) =
      (fst (tableExists ext tname w) \<noteq> Inr True \<or>
       isl (fst (getRowCount ext filePath sheetName skipRows (snd (tableExists ext tname w)))))) \<and>
   (isl (fst (processImport ext eng filePath tname sheetName columnMapping skipRows w)) \<longrightarrow>
      processImport (ext\<lparr>bulk := b\<rparr>) eng filePath tname sheetName columnMapping skipRows w =
      processImport ext eng filePath tname sheetName columnMapping skipRows w) \<and>
   (fst (bulkInsertWithTVP ext eng tname batch columnMapping v) = Inl e \<longrightarrow>
      processBatches ext eng tname columnMapping totalRecords (batch # rest) st v =
      processBatches ext eng tname columnMapping totalRecords rest
        (st\<lparr> failedCount := failedCount st + length batch \<rparr>)
        (snd (bulkInsertWithTVP ext eng tname batch columnMapping v)))"
  using processImport_isl_preflight [of ext eng filePath tname sheetName columnMapping skipRows w]
    processImport_isl_stable [of ext filePath eng tname sheetName columnMapping skipRows w]
    processImport_raise_bulk [of ext eng filePath tname sheetName columnMapping skipRows w b]
    batchStep_caught [of ext eng tname batch columnMapping v e totalRecords st]
  by simp

theorem processImport_raises_witness:
  "isl (fst (processImport vanishingWorld plainEngine ''f.xlsx'' ''SampleData'' None None 0 0)) \<and>
   processImport (vanishingWorld\<lparr>bulk := (\<lambda>t w. (Inl Thrown, w))\<rparr>) plainEngine ''f.xlsx''
     ''SampleData'' None None 0 0
   = processImport vanishingWorld plainEngine ''f.xlsx'' ''SampleData'' None None 0 0 \<and>
   \<not> isl (fst (processImport (calmWorld [nameSheet 2]) plainEngine ''f.xlsx'' ''SampleData''
      None None 0 0)) \<and>
   processBatches stormWorld plainEngine ''SampleData'' None 2 [[adaRecord], [adaRecord]]
     \<lparr> successCount = 0, failedCount = 0, processedCount = 0, emitted = [] \<rparr> 3
   = processBatches stormWorld plainEngine ''SampleData'' None 2 [[adaRecord]]
     \<lparr> successCount = 0, failedCount = 1, processedCount = 0, emitted = [] \<rparr> 4"
proof -
  have pf: "preflightFails vanishingWorld plainEngine ''f.xlsx'' ''SampleData'' None 0 0"
    by code_simp
  have stable: "\<forall>v v'. fst (readFile (calmWorld [nameSheet 2]) ''f.xlsx'' v)
      = fst (readFile (calmWorld [nameSheet 2]) ''f.xlsx'' v')"
    by (simp add: calmWorld_def scriptedWorld_def)
  have ok: "\<not> (fst (tableExists (calmWorld [nameSheet 2]) ''SampleData'' 0) \<noteq> Inr True \<or>
      isl (fst (getRowCount (calmWorld [nameSheet 2]) ''f.xlsx'' None 0
        (snd (tableExists (calmWorld [nameSheet 2]) ''SampleData'' 0)))))"
    by code_simp
  have thrown: "fst (bulkInsertWithTVP stormWorld plainEngine ''SampleData'' [adaRecord] None 3)
      = Inl (Error ''Conversion failed'')"
    by code_simp
  have nxt: "snd (bulkInsertWithTVP stormWorld plainEngine ''SampleData'' [adaRecord] None 3) = 4"
    by code_simp
  note vanishing = processImport_raises [where ext = vanishingWorld and eng = plainEngine
      and filePath = "''f.xlsx''" and tname = "''SampleData''" and sheetName = None
      and columnMapping = None and skipRows = 0 and w = 0 and b = "\<lambda>t w. (Inl Thrown, w)"]
  from vanishing pf
  have a: "isl (fst (processImport vanishingWorld plainEngine ''f.xlsx'' ''SampleData'' None None 0 0))"
    and b: "processImport (vanishingWorld\<lparr>bulk := (\<lambda>t w. (Inl Thrown, w))\<rparr>) plainEngine ''f.xlsx''
      ''SampleData'' None None 0 0
      = processImport vanishingWorld plainEngine ''f.xlsx'' ''SampleData'' None None 0 0"
    by blast+
  note storm = processImport_raises [where ext = stormWorld and eng = plainEngine
      and tname = "''SampleData''" and columnMapping = None and batch = "[adaRecord]" and v = 3
      and e = "Error ''Conversion failed''" and totalRecords = 2 and rest = "[[adaRecord]]"
      and st = "\<lparr> successCount = 0, failedCount = 0, processedCount = 0, emitted = [] \<rparr>"]
  from storm thrown nxt
  have c: "processBatches stormWorld plainEngine ''SampleData'' None 2 [[adaRecord], [adaRecord]]
      \<lparr> successCount = 0, failedCount = 0, processedCount = 0, emitted = [] \<rparr> 3
      = processBatches stormWorld plainEngine ''SampleData'' None 2 [[adaRecord]]
      \<lparr> successCount = 0, failedCount = 1, processedCount = 0, emitted = [] \<rparr> 4"
    by simp
  from processImport_raises [where ext = "calmWorld [nameSheet 2]" and eng = plainEngine
      and filePath = "''f.xlsx''" and tname = "''SampleData''" and sheetName = None
      and columnMapping = None and skipRows = 0 and w = 0] stable ok
  have d: "\<not> isl (fst (processImport (calmWorld [nameSheet 2]) plainEngine ''f.xlsx'' ''SampleData''
      None None 0 0))"
    by blast
  from a b c d show ?thesis by blast
qed

text \<open>
  C3 as stated fails: the table exists and the row count succeeds, yet \<open>processImport\<close>
  throws, because the file is gone when the stream reader opens it.
\<close>

theorem processImport_vanishing_counterexample:
  "fst (tableExists vanishingWorld ''SampleData'' 0) = Inr True \<and>
   fst (getRowCount vanishingWorld ''f.xlsx'' None 0 1) = Inr 2 \<and>
   processImport vanishingWorld plainEngine ''f.xlsx'' ''SampleData'' None None 0 0
     = (Inl (Error ''ENOENT: no such file or directory''), 3)"
  by code_simp

section \<open>Properties of the batch loop\<close>

lemma bulkInsertWithTVP_Inr:
  assumes "bulkInsertWithTVP ext eng tname records cm w = (Inr r, w')"
  shows "records \<noteq> [] \<and> r = \<lparr> inserted = length records, failed = 0, errors = [] \<rparr>"
proof (cases records)
  case Nil
  then show ?thesis using assms
    by (simp add: bulkInsertWithTVP_def split: sum.splits)
next
  case (Cons r0 rs)
  then show ?thesis using assms
    by (simp add: bulkInsertWithTVP_def split: sum.splits prod.splits) 
qed


lemma batchStep_cases:
  assumes "batchStep ext eng tname cm tot st batch w = (st', w')"
  shows "st' = st\<lparr> failedCount := failedCount st + length batch \<rparr> \<or>
         (batch \<noteq> [] \<and>
          st' = \<lparr> successCount = successCount st + length batch, failedCount = failedCount st,
                  processedCount = processedCount st + length batch,
                  emitted = emitted st @
                    [\<lparr> total = tot, processed = processedCount st + length batch,
                       pfailed = failedCount st,
                       percentage = percentageOf (processedCount st + length batch) tot \<rparr>] \<rparr>)"
proof (cases "bulkInsertWithTVP ext eng tname batch cm w")
  case (Pair r w1)
  show ?thesis
  proof (cases r)
    case (Inl e)
    have "batchStep ext eng tname cm tot st batch w =
        (st\<lparr> failedCount := failedCount st + length batch \<rparr>, w1)"
      by (simp add: batchStep_def Pair Inl)
    with assms have "st' = st\<lparr> failedCount := failedCount st + length batch \<rparr>" by simp
    then show ?thesis by (rule disjI1)
  next
    case (Inr res)
    have ok: "bulkInsertWithTVP ext eng tname batch cm w = (Inr res, w1)"
      using Pair Inr by simp
    have ne: "batch \<noteq> []" and res: "res = \<lparr> inserted = length batch, failed = 0, errors = [] \<rparr>"
      using bulkInsertWithTVP_Inr [OF ok] by simp_all
    have "batchStep ext eng tname cm tot st batch w =
        (\<lparr> successCount = successCount st + length batch, failedCount = failedCount st,
                  processedCount = processedCount st + length batch,
                  emitted = emitted st @
                    [\<lparr> total = tot, processed = processedCount st + length batch,
                       pfailed = failedCount st,
                       percentage = percentageOf (processedCount st + length batch) tot \<rparr>] \<rparr>, w1)"
      by (simp add: batchStep_def ok res Let_def)
    with assms have "st' = \<lparr> successCount = successCount st + length batch, failedCount = failedCount st,
                  processedCount = processedCount st + length batch,
                  emitted = emitted st @
                    [\<lparr> total = tot, processed = processedCount st + length batch,
                       pfailed = failedCount st,
                       percentage = percentageOf (processedCount st + length batch) tot \<rparr>] \<rparr>"
      by simp
    with ne show ?thesis by (intro disjI2 conjI)
  qed
qed

text \<open>
  What the loop adds to the progress records: every new record carries the total, the
  percentage computed from its own \<open>processed\<close> and the total, and a \<open>processed\<close> that lies
  above the \<open>processedCount\<close> at the start and within the rows of the batches; the new
  records have strictly increasing \<open>processed\<close>. \<open>processedCount\<close> advances by the rows of
  the inserted batches only, as \<open>successCount\<close> does, and every row of every batch is added
  to either \<open>successCount\<close> or \<open>failedCount\<close>.
\<close>

lemma processBatches_updates:
  assumes "processBatches ext eng tname cm tot batches st w = (st', w')"
  shows "\<exists>new. emitted st' = emitted st @ new \<and>
           (\<forall>u \<in> set new. total u = tot \<and> percentage u = percentageOf (processed u) tot \<and>
               processedCount st < processed u \<and>
               processed u \<le> processedCount st + sum_list (map length batches)) \<and>
           sorted_wrt (<) (map processed new) \<and>
           processedCount st \<le> processedCount st' \<and>
           processedCount st' - processedCount st = successCount st' - successCount st \<and>
           successCount st \<le> successCount st' \<and>
           successCount st' + failedCount st'
             = successCount st + failedCount st + sum_list (map length batches)"
  using assms
proof (induction batches arbitrary: st w)
  case Nil
  then show ?case by simp
next
  case (Cons batch rest)
  obtain st1 w1 where step: "batchStep ext eng tname cm tot st batch w = (st1, w1)"
    by (cases "batchStep ext eng tname cm tot st batch w")
  with Cons.prems have rest: "processBatches ext eng tname cm tot rest st1 w1 = (st', w')"
    by simp
  from Cons.IH [OF rest] obtain new where
    e: "emitted st' = emitted st1 @ new" and
    a: "\<forall>u \<in> set new. total u = tot \<and> percentage u = percentageOf (processed u) tot \<and>
               processedCount st1 < processed u \<and>
               processed u \<le> processedCount st1 + sum_list (map length rest)" and
    s: "sorted_wrt (<) (map processed new)" and
    p: "processedCount st1 \<le> processedCount st'" and
    q: "processedCount st' - processedCount st1 = successCount st' - successCount st1" and
    r: "successCount st1 \<le> successCount st'" and
    t: "successCount st' + failedCount st'
             = successCount st1 + failedCount st1 + sum_list (map length rest)"
    by blast
  from batchStep_cases [OF step] show ?case
  proof
    assume f: "st1 = st\<lparr> failedCount := failedCount st + length batch \<rparr>"
    show ?thesis
    proof (intro exI [of _ new] conjI)
      show "emitted st' = emitted st @ new" using e f by simp
      show "\<forall>u \<in> set new. total u = tot \<and> percentage u = percentageOf (processed u) tot \<and>
               processedCount st < processed u \<and>
               processed u \<le> processedCount st + sum_list (map length (batch # rest))"
        using a f by auto
      show "sorted_wrt (<) (map processed new)" by (rule s)
      show "processedCount st \<le> processedCount st'" using p f by simp
      show "processedCount st' - processedCount st = successCount st' - successCount st"
        using q f by simp
      show "successCount st \<le> successCount st'" using r f by simp
      show "successCount st' + failedCount st'
             = successCount st + failedCount st + sum_list (map length (batch # rest))"
        using t f by simp
    qed
  next
    assume g: "batch \<noteq> [] \<and>
          st1 = \<lparr> successCount = successCount st + length batch, failedCount = failedCount st,
                  processedCount = processedCount st + length batch,
                  emitted = emitted st @
                    [\<lparr> total = tot, processed = processedCount st + length batch,
                       pfailed = failedCount st,
                       percentage = percentageOf (processedCount st + length batch) tot \<rparr>] \<rparr>"
    define u0 where "u0 = \<lparr> total = tot, processed = processedCount st + length batch,
                       pfailed = failedCount st,
                       percentage = percentageOf (processedCount st + length batch) tot \<rparr>"
    have len: "0 < length batch" using g by simp
    have c1: "successCount st1 = successCount st + length batch"
      and c2: "failedCount st1 = failedCount st"
      and c3: "processedCount st1 = processedCount st + length batch"
      and c4: "emitted st1 = emitted st @ [u0]"
      using g by (simp_all add: u0_def)
    have u0: "total u0 = tot" "processed u0 = processedCount st + length batch"
      "percentage u0 = percentageOf (processed u0) tot"
      by (simp_all add: u0_def)
    show ?thesis
    proof (intro exI [of _ "u0 # new"] conjI)
      show "emitted st' = emitted st @ u0 # new" using e c4 by simp
      show "\<forall>u \<in> set (u0 # new). total u = tot \<and>
               percentage u = percentageOf (processed u) tot \<and>
               processedCount st < processed u \<and>
               processed u \<le> processedCount st + sum_list (map length (batch # rest))"
      proof
        fix u assume "u \<in> set (u0 # new)"
        then consider "u = u0" | "u \<in> set new" by auto
        then show "total u = tot \<and> percentage u = percentageOf (processed u) tot \<and>
               processedCount st < processed u \<and>
               processed u \<le> processedCount st + sum_list (map length (batch # rest))"
        proof cases
          case 1
          then show ?thesis using u0 len by simp
        next
          case 2
          with a have "total u = tot \<and> percentage u = percentageOf (processed u) tot \<and>
               processedCount st1 < processed u \<and>
               processed u \<le> processedCount st1 + sum_list (map length rest)" by blast
          then show ?thesis using c3 by simp
        qed
      qed
      show "sorted_wrt (<) (map processed (u0 # new))"
        using s a c3 u0(2) by auto
      show "processedCount st \<le> processedCount st'" using p c3 by simp
      show "processedCount st' - processedCount st = successCount st' - successCount st"
        using p q r c1 c3 by simp
      show "successCount st \<le> successCount st'" using r c1 by simp
      show "successCount st' + failedCount st'
             = successCount st + failedCount st + sum_list (map length (batch # rest))"
        using t c1 c2 by simp
    qed
  qed
qed

lemma map_filter_length_le: "length (List.map_filter f xs) \<le> length xs"
  by (simp add: List.map_filter_def)

lemma rowsAfter_le_lastRowNumber:
  "length (List.map_filter id (drop k rs)) \<le> lastRowNumber rs - k"
proof (induction rs rule: rev_induct)
  case Nil
  show ?case by (simp add: List.map_filter_simps)
next
  case (snoc r rs)
  show ?case
  proof (cases r)
    case None
    have "length (List.map_filter id (drop k (rs @ [None])))
        = length (List.map_filter id (drop k rs))"
      by (cases "k - length rs") (simp_all add: List.map_filter_def)
    then show ?thesis
      using snoc.IH unfolding None lastRowNumber_snoc_None by linarith
  next
    case (Some rw)
    have "length (List.map_filter id (drop k (rs @ [r]))) \<le> length (drop k (rs @ [r]))"
      by (rule map_filter_length_le)
    also have "\<dots> = Suc (length rs) - k" by simp
    finally show ?thesis using Some by (simp only: lastRowNumber_snoc_Some)
  qed
qed

lemma collectRows_le_rowCount:
  "length (collectRows eng ws skipRows) \<le> wsRowCount ws - (1 + skipRows)"
proof -
  have "length (collectRows eng ws skipRows) \<le> length (rowsAfterHeader ws skipRows)"
    by (simp add: collectRows_eq)
  also have "\<dots> \<le> wsRowCount ws - (1 + skipRows)"
    unfolding rowsAfterHeader_def wsRowCount_def by (rule rowsAfter_le_lastRowNumber)
  finally show ?thesis .
qed

text \<open>
  C2, as amended. Every progress record of \<open>processImport\<close> carries the percentage
  \<open>Math.round((processed / total) * 100)\<close>, computed in double arithmetic from its own
  \<open>processed\<close> and \<open>total\<close>, and nothing saturates it. It is a whole number from 0 to 100
  whenever \<open>processed \<le> total\<close>, and that holds whenever every read of the file gives the
  same result; whenever \<open>total \<le> processed\<close> it is 100 or more, or infinite.
\<close>

theorem processImport_percentage:
  assumes run: "processImport ext eng filePath tname sheetName cm skipRows w = (Inr st, w')"
    and u: "u \<in> set (emitted st)"
  shows "percentage u = percentageOf (processed u) (total u) \<and>
         (processed u \<le> total u \<longrightarrow>
            (\<exists>k. percentage u = Num (of_int k) \<and> 0 \<le> k \<and> k \<le> 100)) \<and>
         ((\<forall>v v'. fst (readFile ext filePath v) = fst (readFile ext filePath v')) \<longrightarrow>
            processed u \<le> total u) \<and>
         (total u \<le> processed u \<longrightarrow>
            percentage u = PosInfinity \<or>
            (\<exists>k. percentage u = Num (of_int k) \<and> 100 \<le> k))"
proof -
  from run obtain w1 tot w2 batches w3 where
    rc: "getRowCount ext filePath sheetName skipRows w1 = (Inr tot, w2)" and
    sr: "streamExcelRows ext eng filePath sheetName skipRows w2 = (Inr batches, w3)" and
    pb: "processBatches ext eng tname cm tot batches
           \<lparr> successCount = 0, failedCount = 0, processedCount = 0, emitted = [] \<rparr> w3 = (st, w')"
    by (auto simp: processImport_def split: prod.splits sum.splits if_splits)
  from processBatches_updates [OF pb] u have
    tu: "total u = tot" and pu: "percentage u = percentageOf (processed u) tot" and
    pos: "0 < processed u" and up: "processed u \<le> sum_list (map length batches)"
    by auto
  have bound: "processed u \<le> total u \<longrightarrow> (\<exists>k. percentage u = Num (of_int k) \<and> 0 \<le> k \<and> k \<le> 100)"
    using percentageOf_le_100 [OF pos] pu tu by auto
  have stable: "processed u \<le> total u"
    if same: "\<forall>v v'. fst (readFile ext filePath v) = fst (readFile ext filePath v')"
  proof -
    from rc obtain wb ws where r1: "readFile ext filePath w1 = (Inr wb, w2)"
      and s1: "selectWorksheet wb sheetName = Some ws"
      and tot: "tot = nat (max 0 (int (wsRowCount ws) - (1 + int skipRows)))"
      by (auto simp: getRowCount_def split: prod.splits sum.splits option.splits)
    from sr obtain wb' ws' where r2: "readFile ext filePath w2 = (Inr wb', w3)"
      and s2: "selectWorksheet wb' sheetName = Some ws'"
      and b: "batches = yieldBatches (collectRows eng ws' skipRows) 0"
      by (auto simp: streamExcelRows_def split: prod.splits sum.splits option.splits)
    from same r1 r2 have "wb' = wb" by (metis fst_conv sum.inject(2))
    with s1 s2 have ws: "ws' = ws" by simp
    have "sum_list (map length batches) = length (concat batches)" by (simp add: length_concat)
    also have "\<dots> = length (collectRows eng ws skipRows)"
      by (simp add: b ws yieldBatches_concat)
    also have "\<dots> \<le> wsRowCount ws - (1 + skipRows)" by (rule collectRows_le_rowCount)
    also have "\<dots> = tot" by (simp add: tot)
    finally show ?thesis using up tu by simp
  qed
  have unclamped: "total u \<le> processed u \<longrightarrow>
      percentage u = PosInfinity \<or> (\<exists>k. percentage u = Num (of_int k) \<and> 100 \<le> k)"
    using percentageOf_ge_100 [OF pos] pu tu by auto
  show ?thesis using pu tu bound stable unclamped by blast
qed

theorem processImport_percentage_witness:
  "percentage \<lparr> total = 3, processed = 3, pfailed = 0, percentage = Num 100 \<rparr>
     = percentageOf (processed \<lparr> total = 3, processed = 3, pfailed = 0, percentage = Num 100 \<rparr>)
         (total \<lparr> total = 3, processed = 3, pfailed = 0, percentage = Num 100 \<rparr>) \<and>
   processed \<lparr> total = 3, processed = 3, pfailed = 0, percentage = Num 100 \<rparr>
     \<le> total \<lparr> total = 3, processed = 3, pfailed = 0, percentage = Num 100 \<rparr> \<and>
   (\<exists>k. percentage \<lparr> total = 3, processed = 3, pfailed = 0, percentage = Num 100 \<rparr>
          = Num (of_int k) \<and> 0 \<le> k \<and> k \<le> 100) \<and>
   (percentage \<lparr> total = 3, processed = 3, pfailed = 0, percentage = Num 100 \<rparr> = PosInfinity \<or>
    (\<exists>k. percentage \<lparr> total = 3, processed = 3, pfailed = 0, percentage = Num 100 \<rparr>
          = Num (of_int k) \<and> 100 \<le> k))"
proof -
  have run: "processImport (calmWorld [nameSheet 3]) plainEngine ''f.xlsx'' ''SampleData'' None None 0 0
     = (Inr \<lparr> successCount = 3, failedCount = 0, processedCount = 3,
            emitted = [\<lparr> total = 3, processed = 3, pfailed = 0, percentage = Num 100 \<rparr>] \<rparr>, 4)"
    by code_simp
  have u: "\<lparr> total = 3, processed = 3, pfailed = 0, percentage = Num 100 \<rparr>
      \<in> set (emitted \<lparr> successCount = 3, failedCount = 0, processedCount = 3,
            emitted = [\<lparr> total = 3, processed = 3, pfailed = 0, percentage = Num 100 \<rparr>] \<rparr>)"
    by simp
  have stable: "\<forall>v v'. fst (readFile (calmWorld [nameSheet 3]) ''f.xlsx'' v)
      = fst (readFile (calmWorld [nameSheet 3]) ''f.xlsx'' v')"
    by (simp add: calmWorld_def scriptedWorld_def)
  have whole: "total \<lparr> total = 3, processed = 3, pfailed = 0, percentage = Num 100 \<rparr>
      \<le> processed \<lparr> total = 3, processed = 3, pfailed = 0, percentage = Num 100 \<rparr>"
    by simp
  from processImport_percentage [OF run u] stable whole show ?thesis by blast
qed

text \<open>
  C2 as stated fails: here the total undercounts the rows processed (the file has grown
  between the row count and the stream), and the reported percentage is 150.
\<close>

theorem processImport_growing_counterexample:
  "processImport growingWorld plainEngine ''f.xlsx'' ''SampleData'' None None 0 0
   = (Inr \<lparr> successCount = 3, failedCount = 0, processedCount = 3,
            emitted = [\<lparr> total = 2, processed = 3, pfailed = 0, percentage = Num 150 \<rparr>] \<rparr>, 4)"
  by code_simp

section \<open>Evaluation on worksheets of any length\<close>

lemma lastRowNumber_last_Some:
  assumes "rs \<noteq> []" and "last rs \<noteq> None"
  shows "lastRowNumber rs = length rs"
proof -
  from assms(1) obtain ys y where rs: "rs = ys @ [y]" by (cases rs rule: rev_cases) auto
  with assms(2) obtain r where "y = Some r" by auto
  with rs show ?thesis by (simp add: lastRowNumber_snoc_Some)
qed

lemma nameSheet_rowCount: "wsRowCount (nameSheet n) = Suc n"
proof -
  have "last (wsRows (nameSheet n)) \<noteq> None"
    by (simp add: nameSheet_def nameRow_def)
  moreover have "wsRows (nameSheet n) \<noteq> []" by (simp add: nameSheet_def)
  ultimately have "lastRowNumber (wsRows (nameSheet n)) = length (wsRows (nameSheet n))"
    by (rule lastRowNumber_last_Some [rotated])
  then show ?thesis by (simp add: wsRowCount_def nameSheet_def)
qed

lemma nameSheet_headers: "headersOf plainEngine (nameSheet n) 0 = [Some ''Name'']"
proof -
  have "getRow (nameSheet n) (1 + 0) = ([Some (Cell (JString ''Name''))], nameSheet n)"
    by (simp add: getRow_def jsArrayGet_def nameSheet_def)
  moreover have "readHeaders plainEngine [Some (Cell (JString ''Name''))] = [Some ''Name'']"
    by code_simp
  ultimately show ?thesis by (simp add: headersOf_def)
qed

lemma map_filter_replicate: "List.map_filter id (replicate n (Some x)) = replicate n x"
  by (induction n) (simp_all add: List.map_filter_simps)

lemma nameSheet_collectRows: "collectRows plainEngine (nameSheet n) 0 = replicate n adaRecord"
proof -
  have rows: "rowsAfterHeader (nameSheet n) 0 = replicate n [Some (Cell (JString ''Ada''))]"
    by (simp add: rowsAfterHeader_def nameSheet_def nameRow_def map_filter_replicate)
  have adm: "rowAdmitted plainEngine [Some ''Name''] [Some (Cell (JString ''Ada''))]"
    by code_simp
  have rec: "rowRecord plainEngine [Some ''Name''] [Some (Cell (JString ''Ada''))] = adaRecord"
    by code_simp
  show ?thesis
    by (simp add: collectRows_eq nameSheet_headers rows adm rec)
qed

lemma yieldBatches_501: "yieldBatches (replicate 501 r) 0 = [replicate 500 r, [r]]"
proof -
  have a: "yieldBatches (replicate 501 r) 0 = replicate 500 r # yieldBatches (replicate 501 r) 500"
    using yieldBatches_step [of 0 "replicate 501 r"] by (simp add: slice_def batchSize_def)
  have b: "yieldBatches (replicate 501 r) 500 = [r] # yieldBatches (replicate 501 r) 1000"
    using yieldBatches_step [of 500 "replicate 501 r"] by (simp add: slice_def batchSize_def)
  have c: "yieldBatches (replicate 501 r) 1000 = []"
    by (rule yieldBatches_stop) simp
  show ?thesis by (simp add: a b c)
qed

lemma bulkInsertWithTVP_scripted:
  assumes "records \<noteq> []"
  shows "bulkInsertWithTVP (scriptedWorld files tables cols bulks queries) eng tname records cm w =
     (case bulks w of
        Inl e \<Rightarrow> (Inl e, Suc w)
      | Inr u \<Rightarrow> (Inr \<lparr> inserted = length records, failed = 0, errors = [] \<rparr>, Suc w))"
proof -
  from assms obtain r0 rs where "records = r0 # rs" by (cases records) auto
  then show ?thesis
    by (simp add: bulkInsertWithTVP_def getPool_def scriptedWorld_def split: sum.splits)
qed

text \<open>
  C1 at a failing input: 501 data rows, the insert of the first batch of 500 throws, the
  insert of the second batch of one row succeeds. The only progress record reports
  \<open>processed = 1\<close> and \<open>failed = 500\<close>, with one row inserted so far: the failed batch was
  added to \<open>failedCount\<close> and not to \<open>processedCount\<close>.
\<close>

theorem processImport_failed_batch_progress:
  "processImport stormWorld plainEngine ''f.xlsx'' ''SampleData'' None None 0 0
   = (Inr \<lparr> successCount = 1, failedCount = 500, processedCount = 1,
            emitted = [\<lparr> total = 501, processed = 1, pfailed = 500, percentage = Num 0 \<rparr>] \<rparr>, 5)"
proof -
  have t: "tableExists stormWorld ''SampleData'' 0 = (Inr True, 1)"
    by (simp add: tableExists_def getPool_def stormWorld_def scriptedWorld_def)
  have g: "getRowCount stormWorld ''f.xlsx'' None 0 1 = (Inr 501, 2)"
    by (simp add: getRowCount_def stormWorld_def scriptedWorld_def selectWorksheet_def
        nameSheet_rowCount)
  have s: "streamExcelRows stormWorld plainEngine ''f.xlsx'' None 0 2
      = (Inr [replicate 500 adaRecord, [adaRecord]], 3)"
    by (simp add: streamExcelRows_def stormWorld_def scriptedWorld_def selectWorksheet_def
        nameSheet_collectRows yieldBatches_501)
  have i1: "bulkInsertWithTVP stormWorld plainEngine ''SampleData'' (replicate 500 adaRecord) None 3
      = (Inl (Error ''Conversion failed''), 4)"
    unfolding stormWorld_def by (subst bulkInsertWithTVP_scripted) simp_all
  have i2: "bulkInsertWithTVP stormWorld plainEngine ''SampleData'' [adaRecord] None 4
      = (Inr \<lparr> inserted = 1, failed = 0, errors = [] \<rparr>, 5)"
    unfolding stormWorld_def by (subst bulkInsertWithTVP_scripted) simp_all
  have "percentageOf 1 501 = Num 0"
    by code_simp
  then have pc: "percentageOf (Suc 0) 501 = Num 0"
    by simp
  have b: "processBatches stormWorld plainEngine ''SampleData'' None 501
      [replicate 500 adaRecord, [adaRecord]]
      \<lparr> successCount = 0, failedCount = 0, processedCount = 0, emitted = [] \<rparr> 3
      = (\<lparr> successCount = 1, failedCount = 500, processedCount = 1,
            emitted = [\<lparr> total = 501, processed = 1, pfailed = 500, percentage = Num 0 \<rparr>] \<rparr>, 5)"
    by (simp add: batchStep_def i1 i2 pc Let_def)
  show ?thesis
    unfolding processImport_def
    by (simp add: t [unfolded One_nat_def] g [unfolded One_nat_def] s b [unfolded One_nat_def]
        del: processBatches.simps)
qed

text \<open>
  In every run the progress records have strictly increasing \<open>processed\<close>, and
  \<open>processedCount\<close> equals \<open>successCount\<close>: it counts the inserted rows, never the failed.
\<close>

lemma processImport_processed:
  assumes "processImport ext eng filePath tname sheetName cm skipRows w = (Inr st, w')"
  shows "sorted_wrt (<) (map processed (emitted st)) \<and> processedCount st = successCount st"
proof -
  from assms obtain tot batches w3 where
    pb: "processBatches ext eng tname cm tot batches
           \<lparr> successCount = 0, failedCount = 0, processedCount = 0, emitted = [] \<rparr> w3 = (st, w')"
    by (auto simp: processImport_def split: prod.splits sum.splits if_splits)
  from processBatches_updates [OF pb] show ?thesis by auto
qed

section \<open>Properties of the per-row insert\<close>

lemma rowOutcomes_length: "length (rowOutcomes ext eng q cols records w) = length records"
  by (induction records arbitrary: w) (auto split: prod.splits)

lemma failedRows_length:
  "length (filter (\<lambda>out. \<not> isl out) outs) + length (failedRows i outs) = length outs"
proof (induction outs arbitrary: i)
  case Nil
  show ?case by simp
next
  case (Cons out outs)
  then show ?case by (cases out) simp_all
qed

lemma failedRows_append:
  "failedRows i (xs @ ys) = failedRows i xs @ failedRows (i + length xs) ys"
proof (induction xs arbitrary: i)
  case Nil
  show ?case by simp
next
  case (Cons x xs)
  then show ?case by (cases x) simp_all
qed

lemma failedRows_all_inserted: "failedRows i (replicate n (Inr ())) = []"
  by (induction n arbitrary: i) simp_all

lemma insertRows_outcomes:
  "fst (insertRows ext eng q cols records i acc w) =
     (fst acc + length (filter (\<lambda>out. \<not> isl out) (rowOutcomes ext eng q cols records w)),
      snd acc @ failedRows i (rowOutcomes ext eng q cols records w))"
proof (induction records arbitrary: i acc w)
  case Nil
  show ?case by simp
next
  case (Cons rcd rest)
  obtain r w1 where step: "txQuery ext q (rowParameters eng cols rcd) w = (r, w1)"
    by (cases "txQuery ext q (rowParameters eng cols rcd) w")
  show ?case
  proof (cases r)
    case (Inl e)
    then show ?thesis
      using step Cons.IH [of "Suc i" "(fst acc, snd acc @ [(i + 1, errorMessage e)])" w1]
      by simp
  next
    case (Inr u)
    then show ?thesis
      using step Cons.IH [of "Suc i" "(Suc (fst acc), snd acc)" w1]
      by simp
  qed
qed

lemma bulkInsert_Cons:
  "bulkInsert ext eng tname (r0 # rs) cm w =
     (case getPool ext w of
        Inl e \<Rightarrow> (Inl e, w)
      | Inr u \<Rightarrow>
         (case txBegin ext w of
            (Inl e, w1) \<Rightarrow> rollbackAndRethrow ext e w1
          | (Inr u, w1) \<Rightarrow>
             (case insertRows ext eng
                     (insertQueryText tname (map (mapColumn cm) (Object_keys r0)))
                     (Object_keys r0) (r0 # rs) 0 (0, []) w1 of
                (acc, w2) \<Rightarrow>
                  (case txCommit ext w2 of
                     (Inl e, w3) \<Rightarrow> rollbackAndRethrow ext e w3
                   | (Inr u, w3) \<Rightarrow>
                       (Inr \<lparr> inserted = fst acc, failed = length (snd acc),
                              errors = snd acc \<rparr>, w3)))))"
  unfolding bulkInsert_def Let_def list.case ..

lemma bulkInsert_Inr:
  assumes "bulkInsert ext eng tname records cm w = (Inr r, w')"
  shows "\<exists>sampleRecord rest acc w1 w2.
           records = sampleRecord # rest \<and>
           txBegin ext w = (Inr (), w1) \<and>
           insertRows ext eng
             (insertQueryText tname (map (mapColumn cm) (Object_keys sampleRecord)))
             (Object_keys sampleRecord) records 0 (0, []) w1 = (acc, w2) \<and>
           txCommit ext w2 = (Inr (), w') \<and>
           r = \<lparr> inserted = fst acc, failed = length (snd acc), errors = snd acc \<rparr>"
proof -
  have nr: "fst (rollbackAndRethrow ext e v) \<noteq> Inr r" for e v
    by (simp add: rollbackAndRethrow_def split: prod.splits sum.splits)
  have pool: "getPool ext w = Inr ()"
    using assms by (cases "getPool ext w") (simp_all add: bulkInsert_def)
  obtain b w1 where tb: "txBegin ext w = (b, w1)" by (cases "txBegin ext w")
  have b: "b = Inr ()"
  proof (cases b)
    case (Inl e)
    then show ?thesis using assms pool tb nr [of e w1] by (simp add: bulkInsert_def)
  next
    case (Inr u)
    then show ?thesis by simp
  qed
  obtain sampleRecord rest where recs: "records = sampleRecord # rest"
    using assms pool tb b nr [of "Error ''Cannot convert undefined or null to object''" w1]
    by (cases records) (simp_all add: bulkInsert_def)
  let ?q = "insertQueryText tname (map (mapColumn cm) (Object_keys sampleRecord))"
  obtain acc w2 where ir: "insertRows ext eng ?q (Object_keys sampleRecord) records 0 (0, []) w1
      = (acc, w2)"
    by (cases "insertRows ext eng ?q (Object_keys sampleRecord) records 0 (0, []) w1")
  obtain c w3 where tc: "txCommit ext w2 = (c, w3)" by (cases "txCommit ext w2")
  have unfolded: "bulkInsert ext eng tname records cm w =
      (case c of Inl e \<Rightarrow> rollbackAndRethrow ext e w3
       | Inr u \<Rightarrow> (Inr \<lparr> inserted = fst acc, failed = length (snd acc), errors = snd acc \<rparr>, w3))"
    using pool tb b ir tc unfolding recs bulkInsert_Cons
    by (simp del: insertRows.simps)
  show ?thesis
  proof (cases c)
    case (Inl e)
    then show ?thesis using assms unfolded nr [of e w3] by simp
  next
    case (Inr u)
    then have "w3 = w'" "r = \<lparr> inserted = fst acc, failed = length (snd acc), errors = snd acc \<rparr>"
      using assms unfolded by simp_all
    then show ?thesis using recs tb b ir tc Inr by simp
  qed
qed

text \<open>
  C5. Whenever \<open>bulkInsert\<close> returns normally on a batch of N records, every row has
  either incremented \<open>inserted\<close> (its query succeeded) or appended exactly one entry, its
  row number and the message of its error, to \<open>errors\<close>; so \<open>inserted + failed = N\<close> with
  \<open>failed\<close> the number of entries, and the commit that follows the last row has
  succeeded. In particular, when of 500 rows only the query of row 250 throws, the
  result is \<open>inserted = 499\<close>, \<open>failed = 1\<close> and the single entry of row 250.
\<close>

theorem bulkInsert_per_row:
  assumes "bulkInsert ext eng tname records cm w = (Inr r, w')"
  shows "inserted r + failed r = length records \<and>
         failed r = length (errors r) \<and>
         inserted r = length (filter (\<lambda>out. \<not> isl out)
           (rowOutcomes ext eng
              (insertQueryText tname (map (mapColumn cm) (Object_keys (hd records))))
              (Object_keys (hd records)) records (snd (txBegin ext w)))) \<and>
         errors r = failedRows 0
           (rowOutcomes ext eng
              (insertQueryText tname (map (mapColumn cm) (Object_keys (hd records))))
              (Object_keys (hd records)) records (snd (txBegin ext w))) \<and>
         txCommit ext (snd (insertRows ext eng
              (insertQueryText tname (map (mapColumn cm) (Object_keys (hd records))))
              (Object_keys (hd records)) records 0 (0, []) (snd (txBegin ext w)))) = (Inr (), w') \<and>
         (\<forall>e. rowOutcomes ext eng
              (insertQueryText tname (map (mapColumn cm) (Object_keys (hd records))))
              (Object_keys (hd records)) records (snd (txBegin ext w))
              = replicate 249 (Inr ()) @ [Inl e] @ replicate 250 (Inr ()) \<longrightarrow>
            r = \<lparr> inserted = 499, failed = 1, errors = [(250, errorMessage e)] \<rparr>)"
proof -
  from bulkInsert_Inr [OF assms] obtain sampleRecord rest acc w1 w2 where
    recs: "records = sampleRecord # rest" and
    tb: "txBegin ext w = (Inr (), w1)" and
    ir: "insertRows ext eng
           (insertQueryText tname (map (mapColumn cm) (Object_keys sampleRecord)))
           (Object_keys sampleRecord) records 0 (0, []) w1 = (acc, w2)" and
    tc: "txCommit ext w2 = (Inr (), w')" and
    r: "r = \<lparr> inserted = fst acc, failed = length (snd acc), errors = snd acc \<rparr>"
    by blast
  define q where "q = insertQueryText tname (map (mapColumn cm) (Object_keys (hd records)))"
  define outs where "outs = rowOutcomes ext eng q (Object_keys (hd records)) records (snd (txBegin ext w))"
  have hd: "hd records = sampleRecord" by (simp add: recs)
  have w1: "snd (txBegin ext w) = w1" by (simp add: tb)
  have acc: "acc = (length (filter (\<lambda>out. \<not> isl out) outs), failedRows 0 outs)"
    using insertRows_outcomes [of ext eng q "Object_keys sampleRecord" records 0 "(0, [])" w1] ir
    by (simp add: outs_def q_def hd w1)
  have ins: "inserted r = length (filter (\<lambda>out. \<not> isl out) outs)"
    and err: "errors r = failedRows 0 outs"
    and fl: "failed r = length (errors r)"
    by (simp_all add: r acc)
  have len: "length outs = length records"
    by (simp add: outs_def rowOutcomes_length)
  have total: "inserted r + failed r = length records"
    using failedRows_length [of outs 0] by (simp add: ins fl err len)
  have commit: "txCommit ext (snd (insertRows ext eng q (Object_keys (hd records)) records 0
      (0, []) (snd (txBegin ext w)))) = (Inr (), w')"
    using ir tc by (simp add: q_def hd w1)
  have scenario: "r = \<lparr> inserted = 499, failed = 1, errors = [(250, errorMessage e)] \<rparr>"
    if o: "outs = replicate 249 (Inr ()) @ [Inl e] @ replicate 250 (Inr ())" for e
  proof -
    have "failedRows 0 outs = [(250, errorMessage e)]"
      by (simp add: o failedRows_append failedRows_all_inserted)
    moreover have "length (filter (\<lambda>out. \<not> isl out) outs) = 499"
      by (simp add: o)
    ultimately show ?thesis by (simp add: r acc)
  qed
  show ?thesis
    using total fl ins err commit scenario
    unfolding outs_def q_def by blast
qed

lemma map_constant: "\<forall>x \<in> set xs. f x = c \<Longrightarrow> map f xs = replicate (length xs) c"
  by (induction xs) simp_all

lemma map_upt_constant:
  assumes "\<forall>x. a \<le> x \<and> x < b \<longrightarrow> f x = c"
  shows "map f [a ..< b] = replicate (b - a) c"
proof -
  have "\<forall>x \<in> set [a ..< b]. f x = c" using assms by (simp del: upt_rec_numeral)
  then have "map f [a ..< b] = replicate (length [a ..< b]) c" by (rule map_constant)
  then show ?thesis by (simp del: upt_rec_numeral)
qed

lemma rowOutcomes_scripted:
  "rowOutcomes (scriptedWorld files tables cols bulks queries) eng q cs records w
     = map queries [w ..< w + length records]"
proof (induction records arbitrary: w)
  case Nil
  show ?case by simp
next
  case (Cons rcd rest)
  have "[w ..< w + length (rcd # rest)] = w # [Suc w ..< Suc w + length rest]"
    by (simp add: upt_rec)
  then show ?case using Cons.IH [of "Suc w"] by (simp add: scriptedWorld_def)
qed

lemma insertRows_scripted_world:
  "snd (insertRows (scriptedWorld files tables cols bulks queries) eng q cs records i acc w)
     = w + length records"
proof (induction records arbitrary: i acc w)
  case Nil
  show ?case by simp
next
  case (Cons rcd rest)
  show ?case
    using Cons.IH [of "Suc i" _ "Suc w"]
    by (cases "queries w") (simp_all add: scriptedWorld_def)
qed

lemma bulkInsert_scripted_returns:
  assumes "records \<noteq> []"
  shows "\<exists>r. bulkInsert (scriptedWorld files tables cols bulks queries) eng tname records cm w
     = (Inr r, Suc (Suc w + length records))"
proof -
  from assms obtain r0 rs where recs: "records = r0 # rs" by (cases records) auto
  let ?W = "scriptedWorld files tables cols bulks queries"
  let ?q = "insertQueryText tname (map (mapColumn cm) (Object_keys r0))"
  obtain acc w2 where ir: "insertRows ?W eng ?q (Object_keys r0) records 0 (0, []) (Suc w) = (acc, w2)"
    by (cases "insertRows ?W eng ?q (Object_keys r0) records 0 (0, []) (Suc w)")
  have "w2 = Suc w + length records"
    using insertRows_scripted_world [of files tables cols bulks queries eng ?q "Object_keys r0"
        records 0 "(0, [])" "Suc w"] ir by simp
  moreover have "poolConnected ?W w" "txBegin ?W w = (Inr (), Suc w)"
    "txCommit ?W w2 = (Inr (), Suc w2)"
    by (simp_all add: scriptedWorld_def)
  ultimately show ?thesis
    using ir unfolding recs bulkInsert_Cons getPool_def
    by (simp del: insertRows.simps)
qed

theorem bulkInsert_per_row_witness:
  "bulkInsert row250World plainEngine ''SampleData'' (replicate 500 adaRecord) None 0
   = (Inr \<lparr> inserted = 499, failed = 1, errors = [(250, conversionFailed)] \<rparr>, 502)"
proof -
  have ne: "replicate 500 adaRecord \<noteq> []" by simp
  obtain r where run: "bulkInsert row250World plainEngine ''SampleData''
      (replicate 500 adaRecord) None 0 = (Inr r, 502)"
    using bulkInsert_scripted_returns [OF ne, of "\<lambda>w. Inr []" "\<lambda>w. Inr 1" "\<lambda>w. Inr []" "\<lambda>w. Inr ()"
        "\<lambda>w. if w = 250 then Inl (Error conversionFailed) else Inr ()" plainEngine
        "''SampleData''" None 0]
    by (auto simp: row250World_def)
  have b: "snd (txBegin row250World 0) = 1"
    by (simp add: row250World_def scriptedWorld_def)
  let ?f = "\<lambda>w::nat. if w = 250 then Inl (Error conversionFailed) else (Inr () :: jserror + unit)"
  have "[1 ..< 501] = [1 ..< 250] @ [250 ..< 501]"
    using upt_add_eq_append [of 1 250 251] by (simp del: upt_rec_numeral)
  moreover have "[250 ..< 501] = 250 # [251 ..< 501]"
    by (subst upt_rec) (simp del: upt_rec_numeral)
  ultimately have split: "[1 ..< 501] = [1 ..< 250] @ [250] @ [251 ..< 501]"
    by (simp del: upt_rec_numeral)
  have m1: "map ?f [1 ..< 250] = replicate (250 - 1) (Inr ())"
    by (rule map_upt_constant) simp
  have m2: "map ?f [251 ..< 501] = replicate (501 - 251) (Inr ())"
    by (rule map_upt_constant) simp
  have "map ?f [1 ..< 501] = map ?f [1 ..< 250] @ [?f 250] @ map ?f [251 ..< 501]"
    unfolding split by (simp del: upt_rec_numeral)
  also have "\<dots> = replicate 249 (Inr ()) @ [Inl (Error conversionFailed)] @ replicate 250 (Inr ())"
    unfolding m1 m2 by simp
  finally have outs: "map ?f [1 ..< 1 + 500]
      = replicate 249 (Inr ()) @ [Inl (Error conversionFailed)] @ replicate 250 (Inr ())"
    by (simp del: upt_rec_numeral)
  have "rowOutcomes row250World plainEngine
          (insertQueryText ''SampleData'' (map (mapColumn None) (Object_keys (hd (replicate 500 adaRecord)))))
          (Object_keys (hd (replicate 500 adaRecord))) (replicate 500 adaRecord)
          (snd (txBegin row250World 0))
        = replicate 249 (Inr ()) @ [Inl (Error conversionFailed)] @ replicate 250 (Inr ())"
    unfolding b unfolding row250World_def rowOutcomes_scripted using outs
    by (simp del: upt_rec_numeral)
  with bulkInsert_per_row [OF run]
  have "r = \<lparr> inserted = 499, failed = 1, errors = [(250, errorMessage (Error conversionFailed))] \<rparr>"
    by blast
  with run show ?thesis by simp
qed

section \<open>Properties of the generator\<close>

text \<open>
  Pulling the generator to its end gives the batches of \<open>streamExcelRows\<close>, and the same
  world: the list of batches used in \<open>processImport\<close> is what the loop receives.
\<close>

lemma pullAll_suspended:
  "pullAll ext eng filePath sheetName skipRows (GenSuspended batch i) w
     = (Inr (yieldBatches batch (i + batchSize)), w)"
proof (induction batch "i + batchSize" arbitrary: i rule: yieldBatches.induct)
  case (1 batch)
  show ?case
  proof (cases "i + batchSize < length batch")
    case True
    then show ?thesis
      using 1 [OF True refl]
      by (subst pullAll.simps) (simp add: genLoop_def yieldBatches_step)
  next
    case False
    then show ?thesis
      by (subst pullAll.simps) (simp add: genLoop_def yieldBatches_stop)
  qed
qed

lemma pullAll_streamExcelRows:
  "pullAll ext eng filePath sheetName skipRows GenStart w
     = streamExcelRows ext eng filePath sheetName skipRows w"
proof (cases "readFile ext filePath w")
  case (Pair r w')
  show ?thesis
  proof (cases r)
    case (Inl e)
    then show ?thesis using Pair
      by (subst pullAll.simps) (simp add: streamExcelRows_def)
  next
    case (Inr wb)
    show ?thesis
    proof (cases "selectWorksheet wb sheetName")
      case None
      then show ?thesis using Pair Inr
        by (subst pullAll.simps) (simp add: streamExcelRows_def)
    next
      case (Some ws)
      show ?thesis
      proof (cases "0 < length (collectRows eng ws skipRows)")
        case True
        then show ?thesis using Pair Inr Some
          by (subst pullAll.simps)
             (simp add: streamExcelRows_def genLoop_def pullAll_suspended
                yieldBatches_step [of 0])
      next
        case False
        then show ?thesis using Pair Inr Some
          by (subst pullAll.simps)
             (simp add: streamExcelRows_def genLoop_def yieldBatches_stop)
      qed
    qed
  qed
qed

text \<open>
  For every file, the first \<open>next()\<close> that returns a batch has read the file and left the
  records of all its admitted rows in the generator; no later \<open>next()\<close> touches the world.
\<close>

lemma genNext_first_pull:
  assumes "genNext ext eng filePath sheetName skipRows GenStart w = (Inr (Some b), st', w')"
  shows "\<exists>wb ws. readFile ext filePath w = (Inr wb, w') \<and> selectWorksheet wb sheetName = Some ws \<and>
           st' = GenSuspended (collectRows eng ws skipRows) 0 \<and>
           b = take batchSize (collectRows eng ws skipRows)"
  using assms
  by (auto simp: genLoop_def slice_def split: prod.splits sum.splits option.splits if_splits)

lemma genNext_later_pull:
  "snd (snd (genNext ext eng filePath sheetName skipRows (GenSuspended batch i) w)) = w"
  by (simp add: genLoop_def)

text \<open>
  C9 at a failing input: a file with 501 data rows. The first \<open>next()\<close> reads the whole
  file and returns the first 500 records with all 501 records held in the suspended
  generator; the second \<open>next()\<close> slices the held array and reads nothing.
\<close>

theorem genNext_buffers_whole_file:
  "genNext (calmWorld [nameSheet 501]) plainEngine ''f.xlsx'' None 0 GenStart 0
     = (Inr (Some (replicate 500 adaRecord)), GenSuspended (replicate 501 adaRecord) 0, 1) \<and>
   genNext (calmWorld [nameSheet 501]) plainEngine ''f.xlsx'' None 0
       (GenSuspended (replicate 501 adaRecord) 0) 1
     = (Inr (Some [adaRecord]), GenSuspended (replicate 501 adaRecord) 500, 1)"
  by (simp add: calmWorld_def scriptedWorld_def selectWorksheet_def nameSheet_collectRows
      genLoop_def slice_def batchSize_def)

end
